theory Spec2Isabelle
  imports Main "HOL-Library.AList" "HOL-Library.Sublist"
begin

section \<open>The renderer (renderer/renderer.go)\<close>

subsection \<open>Values that cross from Go into the JavaScript host\<close>

text \<open>
  The renderer talks to the browser through Go's \<^verbatim>\<open>syscall/js\<close>. A Go value handed to
  \<^verbatim>\<open>Value.Call\<close> is converted by \<^verbatim>\<open>js.ValueOf\<close>, which panics on a type it does not
  know. \<open>go_value\<close> stands for the dynamic values an \<^verbatim>\<open>interface{}\<close> can hold, as far as the
  renderer can tell them apart: \<^verbatim>\<open>nil\<close>, a bool, an integer (of any of Go's integer types),
  a string, and \<open>GoInvalid\<close> for a value of a type that \<^verbatim>\<open>ValueOf\<close> rejects (a struct,
  a channel, a Go func, ...). \<^verbatim>\<open>ValueOf\<close> turns an integer \<open>n\<close> into the JavaScript number
  \<^verbatim>\<open>float64(n)\<close>: \<open>JSNumber n\<close> stands for that number (so two large integers with the same
  \<^verbatim>\<open>float64\<close> stand for one number under two names; nothing below compares numbers).
  Floating-point values, slices and maps are left out.
\<close>

datatype go_value = GoNil | GoBool bool | GoInt int | GoString string | GoInvalid

datatype js_value = JSNull | JSBool bool | JSNumber int | JSString string

datatype js_type = TypeUndefined | TypeNull | TypeObject

datatype js_exception = InvalidCharacterError | TypeError | HierarchyRequestError

text \<open>
  Every way in which the Go code can stop with a panic: a nil pointer dereference, a
  \<^verbatim>\<open>Value.Set\<close> or \<^verbatim>\<open>Value.Call\<close> on a value that is not an object
  (\<^verbatim>\<open>js.ValueError\<close>), a \<^verbatim>\<open>Value.Call\<close> of a property that is not a function, a
  failed \<^verbatim>\<open>ValueOf\<close>, and an exception thrown by the host during a call
  (\<^verbatim>\<open>js.Error\<close>).
\<close>

datatype panic =
    NilPointerDereference
  | ValueError string js_type
  | NotAFunction string
  | ValueOfInvalidValue
  | JSError js_exception

fun ValueOf :: "go_value \<Rightarrow> panic + js_value" where
  "ValueOf GoNil = Inr JSNull"
| "ValueOf (GoBool b) = Inr (JSBool b)"
| "ValueOf (GoInt n) = Inr (JSNumber n)"
| "ValueOf (GoString s) = Inr (JSString s)"
| "ValueOf GoInvalid = Inl ValueOfInvalidValue"

subsection \<open>Virtual nodes (package vdom)\<close>

text \<open>
  Modelled from the spec: the declaration of \<^verbatim>\<open>vdom.VNode\<close> and of its node-type
  constants is not among the sources. The struct is rebuilt from the spec's data model, from
  the fields that \<^verbatim>\<open>renderer.go\<close> reads (\<^verbatim>\<open>Type\<close>, \<^verbatim>\<open>Text\<close>, \<^verbatim>\<open>Tag\<close>, \<^verbatim>\<open>Props\<close>,
  \<^verbatim>\<open>EventHandlers\<close>, \<^verbatim>\<open>Children\<close>) and from the composite literal in the README, which
  gives \<^verbatim>\<open>Props\<close> the type \<^verbatim>\<open>map[string]interface{}\<close> and \<^verbatim>\<open>Children\<close> the type
  \<^verbatim>\<open>[]*vdom.VNode\<close>. Handlers are called without arguments, so they are Go \<^verbatim>\<open>func()\<close>
  values: here transformers of an application state \<open>'s\<close>.

  \<^item> \<open>VNodeOther\<close> is any value of the node-type that is neither of the two constants; it
    is what the \<^verbatim>\<open>switch\<close> of \<^verbatim>\<open>createDomNode\<close> falls through on.
  \<^item> A Go map is an association list in the order in which the runtime happens to iterate
    it; its keys are distinct.
  \<^item> A child pointer may be \<^verbatim>\<open>nil\<close>: \<open>None\<close>.
  \<^item> A handler is a function that is not nil and that returns.
\<close>

datatype VNodeType = VNodeElement | VNodeText | VNodeOther

datatype 's VNode =
  VNode (Type: VNodeType) (Tag: string) (Props: "(string \<times> go_value) list")
    (EventHandlers: "(string \<times> ('s \<Rightarrow> 's)) list")
    (Children: "'s VNode option list") (Text: string)

subsection \<open>The host document\<close>

text \<open>
  The host tree records what the renderer asked for: the tag given to
  \<^verbatim>\<open>createElement\<close>, the name and value given to each \<^verbatim>\<open>setAttribute\<close>, the listeners
  in the order of their \<^verbatim>\<open>addEventListener\<close> calls, the children in the order of the
  \<^verbatim>\<open>appendChild\<close> calls. What a browser does on top of that (turning an attribute value
  into a string, lower-casing names in an HTML document, decoding UTF-8) is not modelled.

  A listener is a JavaScript function: it receives \<^verbatim>\<open>this\<close> and the argument list (both
  of an abstract type \<open>'e\<close> of host values) and returns a value.
\<close>

type_synonym ('e, 's) js_func = "'e \<Rightarrow> 'e list \<Rightarrow> 's \<Rightarrow> 's \<times> go_value"

datatype ('e, 's) dom_node =
    TextNode string
  | ElementNode string "(string \<times> js_value) list" "(string \<times> ('e, 's) js_func) list"
      "('e, 's) dom_node list"

fun childNodes :: "('e, 's) dom_node \<Rightarrow> ('e, 's) dom_node list" where
  "childNodes (TextNode t) = []"
| "childNodes (ElementNode tag attrs ls cs) = cs"

fun attributes :: "('e, 's) dom_node \<Rightarrow> (string \<times> js_value) list" where
  "attributes (TextNode t) = []"
| "attributes (ElementNode tag attrs ls cs) = attrs"

text \<open>
  The document: which element and attribute names the host accepts (a browser throws
  \<^verbatim>\<open>InvalidCharacterError\<close> on the others, the empty name among them), and the elements
  it holds, by id.
\<close>

record ('e, 's) document =
  valid_element_name :: "string \<Rightarrow> bool"
  valid_attribute_name :: "string \<Rightarrow> bool"
  elements :: "string \<Rightarrow> ('e, 's) dom_node option"

text \<open>A \<^verbatim>\<open>js.Value\<close> that is a node or \<^verbatim>\<open>null\<close> is a \<open>dom_node option\<close>.\<close>

definition getElementById ::
  "('e, 's) document \<Rightarrow> string \<Rightarrow> ('e, 's) dom_node option" where
  "getElementById doc containerID = elements doc containerID"

fun Truthy :: "('e, 's) dom_node option \<Rightarrow> bool" where
  "Truthy None = False"
| "Truthy (Some n) = True"

definition createTextNode :: "('e, 's) document \<Rightarrow> string \<Rightarrow> panic + ('e, 's) dom_node option" where
  "createTextNode doc t = Inr (Some (TextNode t))"

definition createElement :: "('e, 's) document \<Rightarrow> string \<Rightarrow> panic + ('e, 's) dom_node" where
  "createElement doc tag =
     (if valid_element_name doc tag then Inr (ElementNode tag [] [] [])
      else Inl (JSError InvalidCharacterError))"

text \<open>
  The methods below are only ever called on the element that \<open>createElement\<close> returned
  or on the container. For completeness: a text node has no \<^verbatim>\<open>setAttribute\<close>, keeps
  no listeners here, and throws when it is given a child.
\<close>

fun setAttribute ::
  "('e, 's) document \<Rightarrow> ('e, 's) dom_node \<Rightarrow> string \<Rightarrow> js_value \<Rightarrow> panic + ('e, 's) dom_node" where
  "setAttribute doc (ElementNode tag attrs ls cs) key v =
     (if valid_attribute_name doc key then Inr (ElementNode tag (AList.update key v attrs) ls cs)
      else Inl (JSError InvalidCharacterError))"
| "setAttribute doc (TextNode t) key v = Inl (NotAFunction ''setAttribute'')"

fun addEventListener ::
  "('e, 's) dom_node \<Rightarrow> string \<Rightarrow> ('e, 's) js_func \<Rightarrow> panic + ('e, 's) dom_node" where
  "addEventListener (ElementNode tag attrs ls cs) event f =
     Inr (ElementNode tag attrs (ls @ [(event, f)]) cs)"
| "addEventListener (TextNode t) event f = Inr (TextNode t)"

fun appendChild ::
  "('e, 's) dom_node \<Rightarrow> ('e, 's) dom_node option \<Rightarrow> panic + ('e, 's) dom_node" where
  "appendChild parent None = Inl (JSError TypeError)"
| "appendChild (ElementNode tag attrs ls cs) (Some child) =
     Inr (ElementNode tag attrs ls (cs @ [child]))"
| "appendChild (TextNode t) (Some child) = Inl (JSError HierarchyRequestError)"

text \<open>Assigning the empty string to \<^verbatim>\<open>innerHTML\<close> removes every child.\<close>

fun set_innerHTML_empty :: "('e, 's) dom_node \<Rightarrow> ('e, 's) dom_node" where
  "set_innerHTML_empty (ElementNode tag attrs ls cs) = ElementNode tag attrs ls []"
| "set_innerHTML_empty (TextNode t) = TextNode t"

text \<open>
  Dispatching an event of a given name at a node calls, in the order of registration, each
  listener registered on that node under that name, with the node as \<^verbatim>\<open>this\<close> and the
  event as the only argument; what the listener returns is dropped.
\<close>

fun dispatchEvent :: "('e, 's) dom_node \<Rightarrow> string \<Rightarrow> 'e \<Rightarrow> 'e \<Rightarrow> 's \<Rightarrow> 's" where
  "dispatchEvent (TextNode t) event this ev s = s"
| "dispatchEvent (ElementNode tag attrs ls cs) event this ev s =
     fold (\<lambda>(name, f) s. if name = event then fst (f this [ev] s) else s) ls s"

subsection \<open>Renderer\<close>

record ('e, 's) Renderer =
  container :: "('e, 's) dom_node option"

definition NewRenderer :: "('e, 's) document \<Rightarrow> string \<Rightarrow> ('e, 's) Renderer" where
  "NewRenderer doc containerID = \<lparr>container = getElementById doc containerID\<rparr>"

text \<open>
  The loop over \<^verbatim>\<open>vnode.Props\<close>. \<^verbatim>\<open>Call\<close> converts its arguments with \<^verbatim>\<open>ValueOf\<close>
  before it calls the host.
\<close>

fun set_props ::
  "('e, 's) document \<Rightarrow> ('e, 's) dom_node \<Rightarrow> (string \<times> go_value) list \<Rightarrow> panic + ('e, 's) dom_node" where
  "set_props doc element [] = Inr element"
| "set_props doc element ((key, v) # rest) =
     (case ValueOf v of
        Inl p \<Rightarrow> Inl p
      | Inr jv \<Rightarrow>
          (case setAttribute doc element key jv of
             Inl p \<Rightarrow> Inl p
           | Inr element' \<Rightarrow> set_props doc element' rest))"

text \<open>
  The loop over \<^verbatim>\<open>vnode.EventHandlers\<close>. The listener is the closure given to
  \<^verbatim>\<open>js.FuncOf\<close>: it drops \<^verbatim>\<open>this\<close> and \<^verbatim>\<open>args\<close>, calls the handler and
  returns \<^verbatim>\<open>nil\<close>. Each closure holds the handler of its own iteration (the loop-variable
  semantics of Go 1.22, the version the README asks for).
\<close>

definition listener :: "('s \<Rightarrow> 's) \<Rightarrow> ('e, 's) js_func" where
  "listener handler = (\<lambda>this args s. (handler s, GoNil))"

fun add_listeners ::
  "('e, 's) dom_node \<Rightarrow> (string \<times> ('s \<Rightarrow> 's)) list \<Rightarrow> panic + ('e, 's) dom_node" where
  "add_listeners element [] = Inr element"
| "add_listeners element ((event, handler) # rest) =
     (case addEventListener element event (listener handler) of
        Inl p \<Rightarrow> Inl p
      | Inr element' \<Rightarrow> add_listeners element' rest)"

text \<open>
  \<open>createDomNode\<close> and its loop over \<^verbatim>\<open>vnode.Children\<close>. Reading \<^verbatim>\<open>child.Type\<close> through
  a nil pointer panics. The result \<open>Inr None\<close> is \<^verbatim>\<open>js.Null()\<close>.
\<close>

fun createDomNode ::
  "('e, 's) document \<Rightarrow> 's VNode \<Rightarrow> panic + ('e, 's) dom_node option"
and append_children ::
  "('e, 's) document \<Rightarrow> ('e, 's) dom_node \<Rightarrow> 's VNode option list \<Rightarrow> panic + ('e, 's) dom_node" where
  "createDomNode doc (VNode ty tag props handlers children text) =
     (case ty of
        VNodeText \<Rightarrow> createTextNode doc text
      | VNodeElement \<Rightarrow>
          (case createElement doc tag of
             Inl p \<Rightarrow> Inl p
           | Inr element \<Rightarrow>
               (case set_props doc element props of
                  Inl p \<Rightarrow> Inl p
                | Inr element1 \<Rightarrow>
                    (case add_listeners element1 handlers of
                       Inl p \<Rightarrow> Inl p
                     | Inr element2 \<Rightarrow>
                         (case append_children doc element2 children of
                            Inl p \<Rightarrow> Inl p
                          | Inr element3 \<Rightarrow> Inr (Some element3)))))
      | VNodeOther \<Rightarrow> Inr None)"
| "append_children doc element [] = Inr element"
| "append_children doc element (None # rest) = Inl NilPointerDereference"
| "append_children doc element (Some child # rest) =
     (case createDomNode doc child of
        Inl p \<Rightarrow> Inl p
      | Inr childNode \<Rightarrow>
          (if Truthy childNode then
             (case appendChild element childNode of
                Inl p \<Rightarrow> Inl p
              | Inr element' \<Rightarrow> append_children doc element' rest)
           else append_children doc element rest))"

text \<open>
  \<open>Render\<close> returns the renderer with the container as the call left it, and the panic
  that stopped the call, if one did. \<^verbatim>\<open>Value.Set\<close> panics when the container is not an
  object, which is the case of a \<^verbatim>\<open>null\<close> container.
\<close>

definition Render ::
  "('e, 's) document \<Rightarrow> ('e, 's) Renderer \<Rightarrow> 's VNode option \<Rightarrow> ('e, 's) Renderer \<times> panic option" where
  "Render doc r vnode =
     (case container r of
        None \<Rightarrow> (r, Some (ValueError ''Value.Set'' TypeNull))
      | Some c \<Rightarrow>
          (let c0 = set_innerHTML_empty c in
           case vnode of
             None \<Rightarrow> (r\<lparr>container := Some c0\<rparr>, None)
           | Some v \<Rightarrow>
               (case createDomNode doc v of
                  Inl p \<Rightarrow> (r\<lparr>container := Some c0\<rparr>, Some p)
                | Inr domNode \<Rightarrow>
                    (case appendChild c0 domNode of
                       Inl p \<Rightarrow> (r\<lparr>container := Some c0\<rparr>, Some p)
                     | Inr c1 \<Rightarrow> (r\<lparr>container := Some c1\<rparr>, None)))))"

subsection \<open>What a render is compared against\<close>

fun tagName :: "('e, 's) dom_node \<Rightarrow> string" where
  "tagName (TextNode t) = []"
| "tagName (ElementNode tag attrs ls cs) = tag"

fun listeners :: "('e, 's) dom_node \<Rightarrow> (string \<times> ('e, 's) js_func) list" where
  "listeners (TextNode t) = []"
| "listeners (ElementNode tag attrs ls cs) = ls"

text \<open>
  \<open>host_accepts doc T\<close>: the tree \<open>T\<close> is one of the spec's data model (every node is a
  text or an element node, no child pointer is nil, the keys of an attribute map are
  distinct), \<^verbatim>\<open>ValueOf\<close> can convert every attribute value, and the document accepts
  every tag and every attribute name.
\<close>

fun host_accepts :: "('e, 's) document \<Rightarrow> 's VNode \<Rightarrow> bool" where
  "host_accepts doc (VNode ty tag props handlers children text) =
     (case ty of
        VNodeText \<Rightarrow> True
      | VNodeElement \<Rightarrow>
          valid_element_name doc tag \<and>
          distinct (map fst props) \<and>
          (\<forall>(key, v) \<in> set props. valid_attribute_name doc key \<and> v \<noteq> GoInvalid) \<and>
          (\<forall>c \<in> set children. case c of None \<Rightarrow> False | Some child \<Rightarrow> host_accepts doc child)
      | VNodeOther \<Rightarrow> False)"

text \<open>
  \<open>mirrors n T\<close>: the host node \<open>n\<close> is the depth-first structural image of the virtual
  node \<open>T\<close>: a text node with the same text, or an element with the same tag, the same
  set of attributes (each value as \<^verbatim>\<open>ValueOf\<close> converts it) and, child by child and in
  the same order, the images of the children.
\<close>

fun mirrors :: "('e, 's) dom_node \<Rightarrow> 's VNode \<Rightarrow> bool" where
  "mirrors (TextNode t) (VNode ty tag props handlers children text) =
     (ty = VNodeText \<and> t = text)"
| "mirrors (ElementNode tg attrs ls ns) (VNode ty tag props handlers children text) =
     (ty = VNodeElement \<and> tg = tag \<and>
      (\<forall>(key, v) \<in> set props. \<exists>jv. ValueOf v = Inr jv \<and> (key, jv) \<in> set attrs) \<and>
      (\<forall>(key, jv) \<in> set attrs. \<exists>v. (key, v) \<in> set props \<and> ValueOf v = Inr jv) \<and>
      list_all2 (\<lambda>n c. case c of None \<Rightarrow> False | Some child \<Rightarrow> mirrors n child) ns children)"

text \<open>
  The host nodes that a list of children instantiates to, in order, without the children
  whose instantiation returns \<^verbatim>\<open>js.Null()\<close>.
\<close>

definition usable_nodes :: "('e, 's) document \<Rightarrow> 's VNode option list \<Rightarrow> ('e, 's) dom_node list" where
  "usable_nodes doc children =
     List.map_filter
       (\<lambda>c. case c of
               None \<Rightarrow> None
             | Some child \<Rightarrow> (case createDomNode doc child of Inl p \<Rightarrow> None | Inr childNode \<Rightarrow> childNode))
       children"

text \<open>
  The closed forms of the two loops that can stop a render.
  \<open>first_rejected doc props\<close> is the panic of the first attribute pair, in iteration order,
  whose value \<^verbatim>\<open>ValueOf\<close> rejects or whose key the host rejects, if there is one.
  \<open>converted props\<close> are the pairs with their values as \<^verbatim>\<open>ValueOf\<close> converts them, and
  \<open>applied_attributes props\<close> is the attribute list that results from setting them one
  after the other on an element that has none. \<open>first_panic doc children\<close> is the panic of
  the first child, in order, that is a nil pointer or whose instantiation panics, if there
  is one.
\<close>

fun first_rejected :: "('e, 's) document \<Rightarrow> (string \<times> go_value) list \<Rightarrow> panic option" where
  "first_rejected doc [] = None"
| "first_rejected doc ((key, v) # rest) =
     (case ValueOf v of
        Inl p \<Rightarrow> Some p
      | Inr jv \<Rightarrow>
          (if valid_attribute_name doc key then first_rejected doc rest
           else Some (JSError InvalidCharacterError)))"

definition converted :: "(string \<times> go_value) list \<Rightarrow> (string \<times> js_value) list" where
  "converted props =
     List.map_filter (\<lambda>(key, v). case ValueOf v of Inl p \<Rightarrow> None | Inr jv \<Rightarrow> Some (key, jv)) props"

definition applied_attributes :: "(string \<times> go_value) list \<Rightarrow> (string \<times> js_value) list" where
  "applied_attributes props = fold (\<lambda>(key, jv). AList.update key jv) (converted props) []"

fun first_panic :: "('e, 's) document \<Rightarrow> 's VNode option list \<Rightarrow> panic option" where
  "first_panic doc [] = None"
| "first_panic doc (None # rest) = Some NilPointerDereference"
| "first_panic doc (Some child # rest) =
     (case createDomNode doc child of Inl p \<Rightarrow> Some p | Inr childNode \<Rightarrow> first_panic doc rest)"



subsection \<open>The Button component (package component)\<close>

text \<open>
  Modelled from the spec: the package \<^verbatim>\<open>component\<close> is not among the sources. The
  spec's design rule for the Button: an element with tag \<^verbatim>\<open>button\<close>; the text content
  becomes a single text child; an optional zero-argument click callback is registered under
  the event name \<^verbatim>\<open>click\<close>; the disabled flag becomes an attribute when it is true and
  is omitted when it is false. Attribute values are strings.
\<close>

record 's Button =
  label :: string
  onClick :: "('s \<Rightarrow> 's) option"
  disabled :: bool

definition Button_Render :: "'s Button \<Rightarrow> 's VNode" where
  "Button_Render b =
     VNode VNodeElement ''button''
       (if disabled b then [(''disabled'', GoString ''true'')] else [])
       (case onClick b of None \<Rightarrow> [] | Some callback \<Rightarrow> [(''click'', callback)])
       [Some (VNode VNodeText [] [] [] [] (label b))] []"

subsection \<open>Concrete inputs\<close>

text \<open>
  A document that accepts every name but the empty one and holds one element, a
  \<^verbatim>\<open>div\<close> with id \<^verbatim>\<open>app\<close> and a placeholder child. The host values given to
  listeners are strings here.
\<close>

definition example_document :: "(string, 's) document" where
  "example_document =
     \<lparr>valid_element_name = (\<lambda>name. name \<noteq> []),
      valid_attribute_name = (\<lambda>name. name \<noteq> []),
      elements = (\<lambda>containerID.
         if containerID = ''app''
         then Some (ElementNode ''div'' [(''id'', JSString ''app'')] [] [TextNode ''Loading''])
         else None)\<rparr>"

definition page :: "nat VNode" where
  "page = VNode VNodeElement ''div'' [(''class'', GoString ''app'')] [(''click'', Suc)]
            [Some (VNode VNodeText [] [] [] [] ''Welcome''),
             Some (VNode VNodeElement ''p'' [] [] [Some (VNode VNodeText [] [] [] [] ''hello'')] [])] []"

definition text_input :: "('s \<Rightarrow> 's) \<Rightarrow> 's VNode" where
  "text_input handler =
     VNode VNodeElement ''input'' [(''type'', GoString ''text'')] [(''change'', handler)] [] []"

section \<open>The init command (cmd/init.go)\<close>

subsection \<open>strings.TrimSpace\<close>

text \<open>
  A Go string is a sequence of bytes. \<^verbatim>\<open>strings.TrimSpace\<close> removes the leading and the
  trailing white space, as Unicode defines it, from the UTF-8 reading of the string. The
  characters with \<^verbatim>\<open>unicode.IsSpace\<close> are U+0009 to U+000D, U+0020, U+0085, U+00A0,
  U+1680, U+2000 to U+200A, U+2028, U+2029, U+202F, U+205F and U+3000; \<open>white_space\<close>
  lists their encodings. A byte sequence that is not one of these encodings is not a space
  (an invalid sequence decodes to U+FFFD), so trimming removes these encodings from the
  front, and from the back, for as long as one of them is there.
\<close>

definition white_space :: "string list" where
  "white_space =
     [[CHR 0x09], [CHR 0x0A], [CHR 0x0B], [CHR 0x0C], [CHR 0x0D], [CHR 0x20],
      [CHR 0xC2, CHR 0x85], [CHR 0xC2, CHR 0xA0], [CHR 0xE1, CHR 0x9A, CHR 0x80],
      [CHR 0xE2, CHR 0x80, CHR 0x80], [CHR 0xE2, CHR 0x80, CHR 0x81],
      [CHR 0xE2, CHR 0x80, CHR 0x82], [CHR 0xE2, CHR 0x80, CHR 0x83],
      [CHR 0xE2, CHR 0x80, CHR 0x84], [CHR 0xE2, CHR 0x80, CHR 0x85],
      [CHR 0xE2, CHR 0x80, CHR 0x86], [CHR 0xE2, CHR 0x80, CHR 0x87],
      [CHR 0xE2, CHR 0x80, CHR 0x88], [CHR 0xE2, CHR 0x80, CHR 0x89],
      [CHR 0xE2, CHR 0x80, CHR 0x8A], [CHR 0xE2, CHR 0x80, CHR 0xA8],
      [CHR 0xE2, CHR 0x80, CHR 0xA9], [CHR 0xE2, CHR 0x80, CHR 0xAF],
      [CHR 0xE2, CHR 0x81, CHR 0x9F], [CHR 0xE3, CHR 0x80, CHR 0x80]]"

function strip_prefixes :: "string list \<Rightarrow> string \<Rightarrow> string" where
  "strip_prefixes ws s =
     (case find (\<lambda>w. w \<noteq> [] \<and> prefix w s) ws of
        None \<Rightarrow> s
      | Some w \<Rightarrow> strip_prefixes ws (drop (length w) s))"
  by pat_completeness auto
termination
proof (relation "measure (\<lambda>(ws, s). length s)")
  show "wf (measure (\<lambda>(ws, s). length s))" by simp
next
  fix ws :: "string list" and s w :: string
  assume "find (\<lambda>w. w \<noteq> [] \<and> prefix w s) ws = Some w"
  then have "w \<noteq> []" and "prefix w s"
    by (auto simp: find_Some_iff)
  then have "length (drop (length w) s) < length s"
    by (cases s) (auto simp: prefix_def)
  then show "((ws, drop (length w) s), (ws, s)) \<in> measure (\<lambda>(ws, s). length s)"
    by simp
qed

definition TrimLeftSpace :: "string \<Rightarrow> string" where
  "TrimLeftSpace s = strip_prefixes white_space s"

definition TrimRightSpace :: "string \<Rightarrow> string" where
  "TrimRightSpace s = rev (strip_prefixes (map rev white_space) (rev s))"

definition TrimSpace :: "string \<Rightarrow> string" where
  "TrimSpace s = TrimRightSpace (TrimLeftSpace s)"

subsection \<open>path/filepath\<close>

text \<open>
  Paths are those of a Unix system: the separator is the slash. \<^verbatim>\<open>filepath.Clean\<close> works
  on the elements between slashes: it drops an empty element and a dot, lets a double dot
  remove the element before it (a double dot that has nothing to remove is dropped under
  the root and kept elsewhere), and returns a dot for an empty result. The stack of
  \<open>clean_step\<close> holds the elements kept so far, the last one first.
\<close>

fun split_on :: "char \<Rightarrow> string \<Rightarrow> string list" where
  "split_on sep [] = [[]]"
| "split_on sep (c # s) =
     (if c = sep then [] # split_on sep s
      else (case split_on sep s of [] \<Rightarrow> [[c]] | x # xs \<Rightarrow> (c # x) # xs))"

fun strings_Join :: "string list \<Rightarrow> string \<Rightarrow> string" where
  "strings_Join [] sep = []"
| "strings_Join [x] sep = x"
| "strings_Join (x # y # ys) sep = x @ sep @ strings_Join (y # ys) sep"

definition clean_step :: "bool \<Rightarrow> string list \<Rightarrow> string \<Rightarrow> string list" where
  "clean_step rooted stack element =
     (if element = [] \<or> element = ''.'' then stack
      else if element = ''..'' then
        (case stack of
           [] \<Rightarrow> if rooted then [] else [''..'']
         | kept # others \<Rightarrow> if kept = ''..'' then ''..'' # stack else others)
      else element # stack)"

definition Clean :: "string \<Rightarrow> string" where
  "Clean path =
     (if path = [] then ''.''
      else
        (let rooted = (hd path = CHR ''/'');
             kept = rev (foldl (clean_step rooted) [] (split_on (CHR ''/'') path));
             out = strings_Join kept ''/''
         in if rooted then CHR ''/'' # out else if out = [] then ''.'' else out))"

text \<open>
  \<^verbatim>\<open>filepath.Join\<close> drops the leading empty elements, joins the others with slashes and
  cleans the result; with nothing but empty elements it returns the empty string.
\<close>

definition filepath_Join :: "string list \<Rightarrow> string" where
  "filepath_Join elem =
     (case dropWhile (\<lambda>e. e = []) elem of
        [] \<Rightarrow> []
      | e # es \<Rightarrow> Clean (strings_Join (e # es) ''/''))"

subsection \<open>The file system\<close>

text \<open>
  The part of a Unix system that \<^verbatim>\<open>runInit\<close> touches, as the process sees it. There are no
  symbolic links, so an entry is known by its cleaned path; \<open>dirs\<close> and \<open>files\<close> list the
  directories and the files under the paths by which the process can name them. Some
  directories exist on every system and are not listed: the current directory, the root,
  and the parent of the current directory, its parent, and so on (a cleaned path made of
  double dots only).

  A path is looked up element by element: every directory on the way to the last element
  must exist. \<open>ancestors p\<close> are the prefixes of \<open>p\<close> that end in a slash with an element
  still to come, and \<open>reachable fs p\<close> says that each of them is a directory. A path is
  \<open>invalid_path\<close> when it holds a zero byte or is too long for the kernel (4096 bytes with
  the terminating zero, 255 bytes for one element).

  A call can also fail for a reason that the model does not hold (a permission, a full
  disk): \<open>fault\<close> tells for which calls.

  The errors are told apart as far as \<open>runInit\<close> can meet them: \<open>ErrNotExist\<close> (the
  path is empty, or a directory on the way to the last element is missing or is not a
  directory), \<open>ErrExist\<close>, \<open>ErrIsDir\<close>, \<open>ErrInvalid\<close> (a path that the kernel does not
  take: a zero byte, a name that is too long) and \<open>ErrFault\<close> (a failure that \<open>fault\<close>
  injects).
\<close>

datatype syscall = Mkdir string | WriteFile string | RemoveAll string

datatype os_error = ErrNotExist | ErrExist | ErrIsDir | ErrInvalid | ErrFault

record filesystem =
  dirs :: "string list"
  files :: "(string \<times> string) list"
  fault :: "syscall \<Rightarrow> bool"

definition only_dotdot :: "string \<Rightarrow> bool" where
  "only_dotdot p \<longleftrightarrow> (\<forall>e \<in> set (split_on (CHR ''/'') p). e = ''..'')"

definition is_dir :: "filesystem \<Rightarrow> string \<Rightarrow> bool" where
  "is_dir fs p \<longleftrightarrow> p = ''.'' \<or> p = ''/'' \<or> only_dotdot p \<or> p \<in> set (dirs fs)"

definition path_exists :: "filesystem \<Rightarrow> string \<Rightarrow> bool" where
  "path_exists fs p \<longleftrightarrow> is_dir fs p \<or> p \<in> fst ` set (files fs)"

definition ancestors :: "string \<Rightarrow> string list" where
  "ancestors p =
     [take (Suc i) p. i \<leftarrow> [0..<length p],
        p ! i = CHR ''/'' \<and> (\<exists>c \<in> set (drop (Suc i) p). c \<noteq> CHR ''/'')]"

definition reachable :: "filesystem \<Rightarrow> string \<Rightarrow> bool" where
  "reachable fs p \<longleftrightarrow> (\<forall>a \<in> set (ancestors p). is_dir fs (Clean a))"

definition invalid_path :: "string \<Rightarrow> bool" where
  "invalid_path p \<longleftrightarrow>
     CHR 0x00 \<in> set p \<or> 4096 \<le> length p \<or> (\<exists>e \<in> set (split_on (CHR ''/'') p). 255 < length e)"

text \<open>
  \<^verbatim>\<open>os.Mkdir\<close> makes one directory: the path must be valid, the directories on the way to
  it must exist, and the path itself must not.
\<close>

definition os_Mkdir :: "string \<Rightarrow> filesystem \<Rightarrow> os_error + filesystem" where
  "os_Mkdir name fs =
     (if name = [] then Inl ErrNotExist
      else if invalid_path name then Inl ErrInvalid
      else if \<not> reachable fs name then Inl ErrNotExist
      else if path_exists fs (Clean name) then Inl ErrExist
      else if fault fs (Mkdir name) then Inl ErrFault
      else Inr (fs\<lparr>dirs := Clean name # dirs fs\<rparr>))"

text \<open>
  \<^verbatim>\<open>os.WriteFile\<close> creates the file or replaces its content. A write that fails leaves the
  model's file system as it was.
\<close>

definition os_WriteFile :: "string \<Rightarrow> string \<Rightarrow> filesystem \<Rightarrow> os_error + filesystem" where
  "os_WriteFile name data fs =
     (if name = [] then Inl ErrNotExist
      else if invalid_path name then Inl ErrInvalid
      else if \<not> reachable fs name then Inl ErrNotExist
      else if is_dir fs (Clean name) then Inl ErrIsDir
      else if fault fs (WriteFile name) then Inl ErrFault
      else Inr (fs\<lparr>files := AList.update (Clean name) data (files fs)\<rparr>))"

text \<open>
  \<^verbatim>\<open>os.RemoveAll\<close> removes the path and everything below it; a path that does not exist
  is no error. What the call does to a directory that always exists (the current directory,
  the root, a parent) is outside the model, which holds no entry for them: the model
  reports an error there and removes nothing. No run of \<open>runInit\<close> gets there, since it
  removes only the directory that \<^verbatim>\<open>os.Mkdir\<close> has just made, and \<^verbatim>\<open>os.Mkdir\<close> fails
  on each of these.
\<close>

definition below :: "string \<Rightarrow> string \<Rightarrow> bool" where
  "below d p \<longleftrightarrow> p = d \<or> prefix (d @ ''/'') p"

definition os_RemoveAll :: "string \<Rightarrow> filesystem \<Rightarrow> os_error option \<times> filesystem" where
  "os_RemoveAll path fs =
     (if path = [] then (None, fs)
      else if invalid_path path then (Some ErrInvalid, fs)
      else if Clean path = ''.'' \<or> Clean path = ''/'' \<or> only_dotdot (Clean path) then (Some ErrInvalid, fs)
      else if \<not> reachable fs path then (None, fs)
      else if fault fs (RemoveAll path) then (Some ErrFault, fs)
      else (None, fs\<lparr>dirs := filter (\<lambda>p. \<not> below (Clean path) p) (dirs fs),
                      files := filter (\<lambda>(p, data). \<not> below (Clean path) p) (files fs)\<rparr>))"

subsection \<open>Templates\<close>

text \<open>
  The template constants, byte for byte: one list element for each line of the source, a
  tab as \<open>tab\<close>, a character outside ASCII as the bytes of its UTF-8 encoding.
  \<^verbatim>\<open>goModTemplate\<close> and \<^verbatim>\<open>readmeTemplate\<close> put the project name in the place of
  \<^verbatim>\<open>%s\<close>.
\<close>

definition tab :: char where
  "tab = CHR 0x09"

definition mainGoTemplate :: string where
  \<open>mainGoTemplate = concat
     [''\<newline>'',
      ''package main\<newline>'',
      ''\<newline>'',
      ''import (\<newline>'',
      [tab] @ ''"fmt"\<newline>'',
      [tab] @ ''"syscall/js"\<newline>'',
      '')\<newline>'',
      ''\<newline>'',
      ''func main() {\<newline>'',
      [tab] @ ''fmt.Println("Go Wasm app initialized.")\<newline>'',
      ''\<newline>'',
      [tab] @ ''// Get the document object\<newline>'',
      [tab] @ ''document := js.Global().Get("document")\<newline>'',
      [tab] @ ''if !document.Truthy() {\<newline>'',
      [tab, tab] @ ''fmt.Println("Could not get document object")\<newline>'',
      [tab, tab] @ ''return\<newline>'',
      [tab] @ ''}\<newline>'',
      ''\<newline>'',
      [tab] @ ''// Get the app container\<newline>'',
      [tab] @ ''appContainer := document.Call("getElementById", "app")\<newline>'',
      [tab] @ ''if !appContainer.Truthy() {\<newline>'',
      [tab, tab] @ ''fmt.Println("Could not find element with id 'app'")\<newline>'',
      [tab, tab] @ ''return\<newline>'',
      [tab] @ ''}\<newline>'',
      ''\<newline>'',
      [tab] @ ''// Create a new element\<newline>'',
      [tab] @ ''h1 := document.Call("createElement", "h1")\<newline>'',
      [tab] @ ''h1.Set("textContent", "Hello, GoFlow! '' @ [CHR 0xF0, CHR 0x9F, CHR 0x9A, CHR 0x80] @ ''")\<newline>'',
      ''\<newline>'',
      [tab] @ ''// Append the new element to the container\<newline>'',
      [tab] @ ''appContainer.Call("appendChild", h1)\<newline>'',
      ''\<newline>'',
      [tab] @ ''// Keep the Go program running\<newline>'',
      [tab] @ ''<-make(chan bool)\<newline>'',
      ''}\<newline>'']\<close>

definition indexHTMLTemplate :: string where
  \<open>indexHTMLTemplate = concat
     [''\<newline>'',
      ''<!DOCTYPE html>\<newline>'',
      ''<html lang="en">\<newline>'',
      ''<head>\<newline>'',
      ''    <meta charset="UTF-8">\<newline>'',
      ''    <meta name="viewport" content="width=device-width, initial-scale=1.0">\<newline>'',
      ''    <title>GoFlow App</title>\<newline>'',
      ''    <style>\<newline>'',
      ''        body { font-family: -apple-system, BlinkMacSystemFont, 'Segoe UI', Roboto, Helvetica, Arial, sans-serif; display: flex; justify-content: center; align-items: center; height: 100vh; margin: 0; background-color: #f0f2f5; }\<newline>'',
      ''        #app { text-align: center; }\<newline>'',
      ''    </style>\<newline>'',
      ''</head>\<newline>'',
      ''<body>\<newline>'',
      ''    <div id="app">\<newline>'',
      ''        <h2>Loading WebAssembly...</h2>\<newline>'',
      [tab, tab] @ ''<p>If you see this message, the Go Wasm module is loading or has failed to load. Check the browser console for errors.</p>\<newline>'',
      ''    </div>\<newline>'',
      ''\<newline>'',
      ''    <!-- The JS glue file provided by the Go installation -->\<newline>'',
      ''    <script src="wasm_exec.js"></script>\<newline>'',
      ''    <script>\<newline>'',
      ''        if (!WebAssembly.instantiateStreaming) { // polyfill\<newline>'',
      ''            WebAssembly.instantiateStreaming = async (resp, importObject) => {\<newline>'',
      ''                const source = await (await resp).arrayBuffer();\<newline>'',
      ''                return await WebAssembly.instantiate(source, importObject);\<newline>'',
      ''            };\<newline>'',
      ''        }\<newline>'',
      ''\<newline>'',
      ''        const go = new Go();\<newline>'',
      ''        WebAssembly.instantiateStreaming(fetch("app.wasm"), go.importObject).then((result) => {\<newline>'',
      ''            go.run(result.instance);\<newline>'',
      ''        }).catch((err) => {\<newline>'',
      ''            console.error("Wasm instantiation failed:", err);\<newline>'',
      [tab, tab, tab] @ ''const appDiv = document.getElementById('app');\<newline>'',
      [tab, tab, tab] @ ''appDiv.innerHTML = '<h2 style="color: red;">Error</h2><p>Failed to load WebAssembly module. Check console.</p>';\<newline>'',
      ''        });\<newline>'',
      ''    </script>\<newline>'',
      ''</body>\<newline>'',
      ''</html>\<newline>'']\<close>

definition gitignoreTemplate :: string where
  \<open>gitignoreTemplate = concat
     [''\<newline>'',
      ''# Compiled Wasm file\<newline>'',
      ''app.wasm\<newline>'',
      ''\<newline>'',
      ''# JS glue file\<newline>'',
      ''wasm_exec.js\<newline>'']\<close>

definition goModTemplate :: "string \<Rightarrow> string" where
  "goModTemplate projectName =
     ''\<newline>module '' @ projectName @ ''\<newline>\<newline>go 1.22\<newline>''"

definition readmeTemplate :: "string \<Rightarrow> string" where
  "readmeTemplate projectName =
     ''\<newline># '' @ projectName @
     ''\<newline>\<newline>This project was generated by the GoFlow CLI.\<newline>\<newline>## Development\<newline>\<newline>''"

subsection \<open>runInit\<close>

text \<open>
  The process: its file system and what it has printed. Each \<^verbatim>\<open>Printf\<close> and
  \<^verbatim>\<open>Println\<close> of \<^verbatim>\<open>runInit\<close> is one message, with its arguments; the wording is not
  modelled.
\<close>

datatype message =
    Initializing string
  | ErrorCreatingDirectory os_error
  | ErrorCreatingFile string os_error
  | Created string
  | ProjectCreated string
  | NextSteps
  | StepCd string
  | StepBuild
  | StepDev
  | StepOpen

record process =
  fs :: filesystem
  stdout :: "message list"

definition print :: "message \<Rightarrow> process \<Rightarrow> process" where
  "print m p = p\<lparr>stdout := stdout p @ [m]\<rparr>"

text \<open>
  How a call ends: it returns, it calls \<^verbatim>\<open>os.Exit\<close>, or it panics, which
  \<^verbatim>\<open>args[0]\<close> does on an empty argument list (\<^verbatim>\<open>cobra.ExactArgs(1)\<close> lets the
  command run with exactly one argument only).
\<close>

datatype ending = Returned | Exit nat | IndexOutOfRange

definition filesToCreate :: "string \<Rightarrow> (string \<times> string) list" where
  "filesToCreate projectName =
     [(''main.go'', mainGoTemplate),
      (''index.html'', indexHTMLTemplate),
      (''go.mod'', goModTemplate projectName),
      (''README.md'', readmeTemplate projectName),
      (''.gitignore'', gitignoreTemplate)]"

text \<open>
  Go iterates a map in an order of the runtime's choosing. \<open>range_map order m\<close> is the
  sequence of entries that the loop sees: \<open>order\<close>, when it is a rearrangement of the
  entries of \<open>m\<close>, and the entries as written otherwise; so every \<open>order\<close> stands for a
  legal iteration.
\<close>

definition range_map :: "('k \<times> 'v) list \<Rightarrow> ('k \<times> 'v) list \<Rightarrow> ('k \<times> 'v) list" where
  "range_map order m = (if distinct order \<and> set order = set m then order else m)"

text \<open>
  The loop over \<^verbatim>\<open>filesToCreate\<close>: \<open>Some code\<close> when the body has called
  \<^verbatim>\<open>os.Exit(code)\<close>, \<open>None\<close> when the loop has run to its end. The error that
  \<^verbatim>\<open>os.RemoveAll\<close> returns is dropped.
\<close>

fun create_files :: "string \<Rightarrow> (string \<times> string) list \<Rightarrow> process \<Rightarrow> nat option \<times> process" where
  "create_files projectName [] p = (None, p)"
| "create_files projectName ((fileName, content) # rest) p =
     (let filePath = filepath_Join [projectName, fileName] in
      case os_WriteFile filePath (TrimSpace content) (fs p) of
        Inl err \<Rightarrow>
          (let p1 = print (ErrorCreatingFile fileName err) p;
               p2 = p1\<lparr>fs := snd (os_RemoveAll projectName (fs p1))\<rparr>
           in (Some 1, p2))
      | Inr fs' \<Rightarrow> create_files projectName rest (print (Created filePath) (p\<lparr>fs := fs'\<rparr>)))"

definition runInit :: "(string \<times> string) list \<Rightarrow> string list \<Rightarrow> process \<Rightarrow> ending \<times> process" where
  "runInit order args p =
     (case args of
        [] \<Rightarrow> (IndexOutOfRange, p)
      | projectName # others \<Rightarrow>
          (let p1 = print (Initializing projectName) p in
           case os_Mkdir projectName (fs p1) of
             Inl err \<Rightarrow> (Exit 1, print (ErrorCreatingDirectory err) p1)
           | Inr fs' \<Rightarrow>
               (case create_files projectName (range_map order (filesToCreate projectName))
                       (p1\<lparr>fs := fs'\<rparr>) of
                  (Some code, p2) \<Rightarrow> (Exit code, p2)
                | (None, p2) \<Rightarrow>
                    (Returned,
                     print StepOpen (print StepDev (print StepBuild (print (StepCd projectName)
                       (print NextSteps (print (ProjectCreated projectName) p2)))))))))"


subsection \<open>What a run of init is compared against\<close>

text \<open>
  The analysis of \<open>Clean\<close>. An element is \<open>plain\<close> when it is a name: not empty, not a
  dot or a double dot, and without a slash. \<open>resolve\<close> is the stack that \<open>Clean\<close> builds
  and \<open>render\<close> the string it makes of it; \<open>kept_ok\<close> is the invariant of the stack:
  its elements are plain, but for double dots at the bottom of the stack of a path that is
  not rooted. \<open>dir_prefix d\<close> is what stands before the name of an entry of the directory
  \<open>d\<close>.
\<close>

definition plain :: "string \<Rightarrow> bool" where
  "plain e \<longleftrightarrow> e \<noteq> [] \<and> e \<noteq> ''.'' \<and> e \<noteq> ''..'' \<and> CHR ''/'' \<notin> set e"

fun kept_ok :: "bool \<Rightarrow> string list \<Rightarrow> bool" where
  "kept_ok rooted [] = True"
| "kept_ok rooted (x # xs) =
     (kept_ok rooted xs \<and> (plain x \<or> (x = ''..'' \<and> \<not> rooted \<and> (\<forall>y \<in> set xs. y = ''..''))))"

definition render :: "bool \<Rightarrow> string list \<Rightarrow> string" where
  "render rooted kept =
     (let out = strings_Join kept ''/''
      in if rooted then CHR ''/'' # out else if out = [] then ''.'' else out)"

definition resolve :: "string \<Rightarrow> string list" where
  "resolve path = foldl (clean_step (hd path = CHR ''/'')) [] (split_on (CHR ''/'') path)"

definition dir_prefix :: "string \<Rightarrow> string" where
  "dir_prefix d = (if d = ''.'' then [] else if d = ''/'' then ''/'' else d @ ''/'')"

text \<open>
  \<open>write_refused fs name\<close>: \<^verbatim>\<open>os.WriteFile\<close> fails on \<open>name\<close>. \<open>written\<close> is the
  list of files after the loop has written a list of entries.
\<close>

definition write_refused :: "filesystem \<Rightarrow> string \<Rightarrow> bool" where
  "write_refused fs' name \<longleftrightarrow>
     name = [] \<or> invalid_path name \<or> \<not> reachable fs' name \<or> is_dir fs' (Clean name) \<or>
     fault fs' (WriteFile name)"

definition written :: "string \<Rightarrow> (string \<times> string) list \<Rightarrow> (string \<times> string) list \<Rightarrow> (string \<times> string) list" where
  "written projectName entries fl =
     fold (\<lambda>(fileName, content). AList.update (Clean (filepath_Join [projectName, fileName])) (TrimSpace content))
       entries fl"

subsection \<open>Concrete inputs for init\<close>

text \<open>
  A disk on which nothing is listed and no call is faulted: the current directory is empty,
  and so are the root and the parents as far as the process can see. And a process that
  has printed nothing.
\<close>

definition empty_disk :: filesystem where
  "empty_disk = \<lparr>dirs = [], files = [], fault = (\<lambda>call. False)\<rparr>"

definition start :: "filesystem \<Rightarrow> process" where
  "start disk = \<lparr>fs = disk, stdout = []\<rparr>"


section \<open>Properties of the renderer\<close>

subsection \<open>The three loops of createDomNode\<close>

lemma update_fresh: "key \<notin> fst ` set al \<Longrightarrow> AList.update key v al = al @ [(key, v)]"
  by (induction al) auto

lemma set_props_Inr:
  assumes "distinct (map fst props)"
    and "\<forall>(key, v) \<in> set props. valid_attribute_name doc key \<and> v \<noteq> GoInvalid"
    and "fst ` set props \<inter> fst ` set attrs = {}"
  shows "\<exists>new. set_props doc (ElementNode tag attrs ls cs) props = Inr (ElementNode tag (attrs @ new) ls cs) \<and>
           list_all2 (\<lambda>(key, v) (key', jv). key' = key \<and> ValueOf v = Inr jv) props new \<and>
           (\<forall>(key, v) \<in> set props. \<exists>jv. ValueOf v = Inr jv \<and> (key, jv) \<in> set new) \<and>
           (\<forall>(key, jv) \<in> set new. \<exists>v. (key, v) \<in> set props \<and> ValueOf v = Inr jv)"
  using assms
proof (induction props arbitrary: attrs)
  case Nil
  then show ?case by simp
next
  case (Cons kv rest)
  obtain key v where kv: "kv = (key, v)" by (cases kv)
  from Cons.prems kv have ok: "valid_attribute_name doc key" "v \<noteq> GoInvalid" by auto
  then obtain jv where jv: "ValueOf v = Inr jv" by (cases v) auto
  from Cons.prems kv have fresh: "key \<notin> fst ` set attrs" by auto
  have step: "setAttribute doc (ElementNode tag attrs ls cs) key jv = Inr (ElementNode tag (attrs @ [(key, jv)]) ls cs)"
    using ok fresh by (simp add: update_fresh)
  have d: "distinct (map fst rest)" using Cons.prems by simp
  have a: "\<forall>(key, v) \<in> set rest. valid_attribute_name doc key \<and> v \<noteq> GoInvalid" using Cons.prems by simp
  have f: "fst ` set rest \<inter> fst ` set (attrs @ [(key, jv)]) = {}" using Cons.prems kv by auto
  from Cons.IH [OF d a f] obtain new where new:
    "set_props doc (ElementNode tag ((attrs @ [(key, jv)])) ls cs) rest = Inr (ElementNode tag ((attrs @ [(key, jv)]) @ new) ls cs)"
    "list_all2 (\<lambda>(key, v) (key', jv). key' = key \<and> ValueOf v = Inr jv) rest new"
    "\<forall>(key, v) \<in> set rest. \<exists>jv. ValueOf v = Inr jv \<and> (key, jv) \<in> set new"
    "\<forall>(key, jv) \<in> set new. \<exists>v. (key, v) \<in> set rest \<and> ValueOf v = Inr jv"
    by blast
  have h1: "set_props doc (ElementNode tag attrs ls cs) (kv # rest) = Inr (ElementNode tag (attrs @ (key, jv) # new) ls cs)"
    using new(1) jv step kv by simp
  have h2: "list_all2 (\<lambda>(key, v) (key', jv). key' = key \<and> ValueOf v = Inr jv) (kv # rest) ((key, jv) # new)"
    using new(2) kv jv by simp
  have h3: "\<forall>(key', v') \<in> set (kv # rest). \<exists>jv'. ValueOf v' = Inr jv' \<and> (key', jv') \<in> set ((key, jv) # new)"
    using new(3) jv kv by auto
  have h4: "\<forall>(key', jv') \<in> set ((key, jv) # new). \<exists>v'. (key', v') \<in> set (kv # rest) \<and> ValueOf v' = Inr jv'"
    using new(4) jv kv by auto
  show ?case
    by (rule exI [of _ "(key, jv) # new"]) (use h1 h2 h3 h4 in blast)
qed

lemma add_listeners_Inr:
  "add_listeners (ElementNode tag attrs ls cs) handlers =
     Inr (ElementNode tag attrs (ls @ map (\<lambda>(event, handler). (event, listener handler)) handlers) cs)"
  by (induction handlers arbitrary: ls) auto

lemma append_children_Inr:
  assumes "\<forall>c \<in> set children. \<exists>child r. c = Some child \<and> createDomNode doc child = Inr r"
  shows "append_children doc (ElementNode tag attrs ls cs) children =
           Inr (ElementNode tag attrs ls (cs @ usable_nodes doc children))"
  using assms
proof (induction children arbitrary: cs)
  case Nil
  then show ?case by (simp add: usable_nodes_def List.map_filter_simps)
next
  case (Cons c rest)
  then obtain child r where c: "c = Some child" "createDomNode doc child = Inr r" by auto
  have rest: "\<forall>c \<in> set rest. \<exists>child r. c = Some child \<and> createDomNode doc child = Inr r"
    using Cons.prems by simp
  show ?case
  proof (cases r)
    case None
    then show ?thesis using c Cons.IH [OF rest, of cs]
      by (simp add: usable_nodes_def List.map_filter_simps)
  next
    case (Some n)
    then show ?thesis using c Cons.IH [OF rest, of "cs @ [n]"]
      by (simp add: usable_nodes_def List.map_filter_simps)
  qed
qed


lemma usable_nodes_mirror:
  assumes "\<forall>c \<in> set children. \<exists>child n. c = Some child \<and> createDomNode doc child = Inr (Some n) \<and> mirrors n child"
  shows "list_all2 (\<lambda>n c. case c of None \<Rightarrow> False | Some child \<Rightarrow> mirrors n child)
           (usable_nodes doc children) children"
  using assms
proof (induction children)
  case Nil
  then show ?case by (simp add: usable_nodes_def List.map_filter_simps)
next
  case (Cons c rest)
  then obtain child n where c: "c = Some child" "createDomNode doc child = Inr (Some n)" "mirrors n child"
    by auto
  have "list_all2 (\<lambda>n c. case c of None \<Rightarrow> False | Some child \<Rightarrow> mirrors n child)
           (usable_nodes doc rest) rest"
    using Cons by simp
  then show ?case using c by (simp add: usable_nodes_def List.map_filter_simps)
qed

lemma createDomNode_mirrors:
  "host_accepts doc v \<Longrightarrow> \<exists>n. createDomNode doc v = Inr (Some n) \<and> mirrors n v"
proof (induction v)
  case (VNode ty tag props handlers children t)
  show ?case
  proof (cases ty)
    case VNodeText
    then show ?thesis by (simp add: createTextNode_def)
  next
    case VNodeOther
    then show ?thesis using VNode.prems by simp
  next
    case VNodeElement
    with VNode.prems have tag: "valid_element_name doc tag"
      and d: "distinct (map fst props)"
      and a: "\<forall>(key, v) \<in> set props. valid_attribute_name doc key \<and> v \<noteq> GoInvalid"
      and cs: "\<forall>c \<in> set children. case c of None \<Rightarrow> False | Some child \<Rightarrow> host_accepts doc child"
      by simp_all
    have kids: "\<forall>c \<in> set children. \<exists>child n. c = Some child \<and> createDomNode doc child = Inr (Some n) \<and> mirrors n child"
    proof
      fix c assume c: "c \<in> set children"
      with cs obtain child where ch: "c = Some child" "host_accepts doc child"
        by (cases c) auto
      from VNode.IH [of c child] c ch show "\<exists>child n. c = Some child \<and> createDomNode doc child = Inr (Some n) \<and> mirrors n child"
        by auto
    qed
    from set_props_Inr [OF d a, of "[]" tag "[]" "[]"] obtain new where new:
      "set_props doc (ElementNode tag [] [] []) props = Inr (ElementNode tag new [] [])"
      "list_all2 (\<lambda>(key, v) (key', jv). key' = key \<and> ValueOf v = Inr jv) props new"
      "\<forall>(key, v) \<in> set props. \<exists>jv. ValueOf v = Inr jv \<and> (key, jv) \<in> set new"
      "\<forall>(key, jv) \<in> set new. \<exists>v. (key, v) \<in> set props \<and> ValueOf v = Inr jv"
      by auto
    have kids': "\<forall>c \<in> set children. \<exists>child r. c = Some child \<and> createDomNode doc child = Inr r"
      using kids by blast
    let ?ls = "map (\<lambda>(event, handler). (event, listener handler)) handlers"
    let ?n = "ElementNode tag new ?ls (usable_nodes doc children)"
    have "createDomNode doc (VNode ty tag props handlers children t) = Inr (Some ?n)"
      using VNodeElement tag new(1) append_children_Inr [OF kids', of tag new ?ls "[]"]
      by (simp add: createElement_def add_listeners_Inr)
    moreover have "mirrors ?n (VNode ty tag props handlers children t)"
      using VNodeElement new(3,4) usable_nodes_mirror [OF kids] by simp
    ultimately show ?thesis by blast
  qed
qed


lemma set_props_shape:
  "set_props doc (ElementNode tag attrs ls cs) props = Inr el \<Longrightarrow>
     (\<exists>attrs'. el = ElementNode tag attrs' ls cs) \<and>
     (\<forall>(key, v) \<in> set props. valid_attribute_name doc key \<and> v \<noteq> GoInvalid)"
proof (induction props arbitrary: attrs)
  case Nil
  then show ?case by auto
next
  case (Cons kv rest)
  obtain key v where kv: "kv = (key, v)" by (cases kv)
  from Cons.prems kv obtain jv where jv: "ValueOf v = Inr jv"
    by (cases "ValueOf v") auto
  from Cons.prems kv jv have ok: "valid_attribute_name doc key"
    by (auto split: if_splits)
  with Cons.prems kv jv
  have "set_props doc (ElementNode tag (AList.update key jv attrs) ls cs) rest = Inr el"
    by simp
  from Cons.IH [OF this] jv ok kv show ?case by auto
qed

lemma append_children_shape:
  "append_children doc (ElementNode tag attrs ls cs) children = Inr el \<Longrightarrow>
     \<exists>cs'. el = ElementNode tag attrs ls cs'"
proof (induction children arbitrary: cs)
  case Nil
  then show ?case by auto
next
  case (Cons c rest)
  from Cons.prems obtain child r where c: "c = Some child" "createDomNode doc child = Inr r"
    by (cases c) (auto split: sum.splits)
  show ?case
  proof (cases r)
    case None
    with Cons.prems c have "append_children doc (ElementNode tag attrs ls cs) rest = Inr el"
      by simp
    from Cons.IH [OF this] show ?thesis .
  next
    case (Some n)
    with Cons.prems c have "append_children doc (ElementNode tag attrs ls (cs @ [n])) rest = Inr el"
      by simp
    from Cons.IH [OF this] show ?thesis .
  qed
qed

lemma createDomNode_element:
  assumes "createDomNode doc (VNode VNodeElement tag props handlers children t) = Inr r"
  shows "\<exists>attrs cs. r = Some (ElementNode tag attrs (map (\<lambda>(event, handler). (event, listener handler)) handlers) cs) \<and>
           set_props doc (ElementNode tag [] [] []) props = Inr (ElementNode tag attrs [] []) \<and>
           valid_element_name doc tag"
proof -
  from assms have tag: "valid_element_name doc tag"
    by (auto simp: createElement_def split: if_splits)
  from assms tag obtain e1 where e1: "set_props doc (ElementNode tag [] [] []) props = Inr e1"
    by (auto simp: createElement_def split: sum.splits)
  from set_props_shape [OF e1] obtain attrs where attrs: "e1 = ElementNode tag attrs [] []"
    by blast
  let ?ls = "map (\<lambda>(event, handler). (event, listener handler)) handlers"
  from assms tag e1 attrs obtain e3 where e3:
    "append_children doc (ElementNode tag attrs ?ls []) children = Inr e3" "r = Some e3"
    by (auto simp: createElement_def add_listeners_Inr split: sum.splits)
  from append_children_shape [OF e3(1)] obtain cs where "e3 = ElementNode tag attrs ?ls cs"
    by blast
  with e3 e1 attrs tag show ?thesis by blast
qed

lemma fold_handlers:
  "fold (\<lambda>(name, f) s. if name = event then fst (f this [ev] s) else s)
        (map (\<lambda>(event, handler). (event, listener handler)) handlers) s =
   fold (\<lambda>(name, handler) s. if name = event then handler s else s) handlers s"
  by (induction handlers arbitrary: s) (auto simp: listener_def)

lemma fold_single_handler:
  "distinct (map fst handlers) \<Longrightarrow> (event, handler) \<in> set handlers \<Longrightarrow>
     fold (\<lambda>(name, h) s. if name = event then h s else s) handlers s = handler s"
proof (induction handlers arbitrary: s)
  case Nil
  then show ?case by simp
next
  case (Cons p rest)
  obtain name h where p: "p = (name, h)" by (cases p)
  show ?case
  proof (cases "name = event")
    case True
    with Cons.prems p have same: "h = handler" and none: "event \<notin> fst ` set rest"
      by (auto simp: image_iff)
    have "fold (\<lambda>(name, h) s. if name = event then h s else s) rest s' = s'" for s'
      using none by (induction rest arbitrary: s') auto
    then show ?thesis using p True same by simp
  next
    case False
    with Cons p show ?thesis by auto
  qed
qed

lemma dispatch_registered:
  assumes "createDomNode doc (VNode VNodeElement tag props handlers children t) = Inr (Some el)"
    and "distinct (map fst handlers)" and "(event, handler) \<in> set handlers"
  shows "dispatchEvent el event this ev s = handler s"
proof -
  from createDomNode_element [OF assms(1)] obtain attrs cs where
    "el = ElementNode tag attrs (map (\<lambda>(event, handler). (event, listener handler)) handlers) cs"
    by blast
  then show ?thesis
    using fold_single_handler [OF assms(2,3)] by (simp add: fold_handlers)
qed

subsection \<open>The loops in closed form\<close>

lemma converted_Cons:
  "converted ((key, v) # rest) =
     (case ValueOf v of Inl p \<Rightarrow> converted rest | Inr jv \<Rightarrow> (key, jv) # converted rest)"
  by (simp add: converted_def List.map_filter_simps split: sum.splits)

lemma converted_Nil: "converted [] = []"
  by (simp add: converted_def List.map_filter_simps)

lemma set_props_eq:
  "set_props doc (ElementNode tag attrs ls cs) props =
     (case first_rejected doc props of
        Some p \<Rightarrow> Inl p
      | None \<Rightarrow> Inr (ElementNode tag (fold (\<lambda>(key, jv). AList.update key jv) (converted props) attrs) ls cs))"
proof (induction props arbitrary: attrs)
  case Nil
  then show ?case by (simp add: converted_Nil)
next
  case (Cons kv rest)
  obtain key v where kv: "kv = (key, v)" by (cases kv)
  show ?case
  proof (cases "ValueOf v")
    case (Inl p)
    with kv show ?thesis by simp
  next
    case (Inr jv)
    show ?thesis
    proof (cases "valid_attribute_name doc key")
      case True
      with kv Inr Cons.IH [of "AList.update key jv attrs"] show ?thesis
        by (cases "first_rejected doc rest") (simp_all add: converted_Cons)
    next
      case False
      with kv Inr show ?thesis by simp
    qed
  qed
qed





lemma usable_nodes_Cons:
  "usable_nodes doc (Some child # rest) =
     (case createDomNode doc child of
        Inl p \<Rightarrow> usable_nodes doc rest
      | Inr None \<Rightarrow> usable_nodes doc rest
      | Inr (Some n) \<Rightarrow> n # usable_nodes doc rest)"
  by (simp add: usable_nodes_def List.map_filter_simps split: sum.splits option.splits)

lemma append_children_eq:
  "append_children doc (ElementNode tag attrs ls cs) children =
     (case first_panic doc children of
        Some p \<Rightarrow> Inl p
      | None \<Rightarrow> Inr (ElementNode tag attrs ls (cs @ usable_nodes doc children)))"
proof (induction children arbitrary: cs)
  case Nil
  then show ?case by (simp add: usable_nodes_def List.map_filter_simps)
next
  case (Cons c rest)
  show ?case
  proof (cases c)
    case None
    then show ?thesis by simp
  next
    case (Some child)
    show ?thesis
    proof (cases "createDomNode doc child")
      case (Inl p)
      with Some show ?thesis by simp
    next
      case (Inr r)
      show ?thesis
      proof (cases r)
        case None
        with \<open>c = Some child\<close> Inr Cons.IH [of cs] show ?thesis
          by (cases "first_panic doc rest") (simp_all add: usable_nodes_Cons)
      next
        case (Some n)
        with \<open>c = Some child\<close> Inr Cons.IH [of "cs @ [n]"] show ?thesis
          by (cases "first_panic doc rest") (simp_all add: usable_nodes_Cons)
      qed
    qed
  qed
qed

lemma createDomNode_Element_eq:
  "createDomNode doc (VNode VNodeElement tag props handlers children t) =
     (if \<not> valid_element_name doc tag then Inl (JSError InvalidCharacterError)
      else case first_rejected doc props of
             Some p \<Rightarrow> Inl p
           | None \<Rightarrow>
               (case first_panic doc children of
                  Some p \<Rightarrow> Inl p
                | None \<Rightarrow>
                    Inr (Some (ElementNode tag (applied_attributes props)
                                 (map (\<lambda>(event, handler). (event, listener handler)) handlers)
                                 (usable_nodes doc children)))))"
  by (simp add: createElement_def set_props_eq add_listeners_Inr append_children_eq applied_attributes_def
           split: option.splits)

subsection \<open>Rendering a tree\<close>

text \<open>
  Claim C1, as amended. For every virtual tree \<open>T\<close> that the host accepts (see
  \<open>host_accepts\<close>), \<open>Render\<close> on a renderer whose container is an element returns
  without a panic and leaves the container with exactly one child, the structural image of
  \<open>T\<close>, whatever children \<open>old\<close> the container had before.
\<close>

theorem Render_mirrors:
  assumes "container r = Some (ElementNode tag attrs ls old)" and "host_accepts doc T"
  shows "\<exists>n. Render doc r (Some T) = (r\<lparr>container := Some (ElementNode tag attrs ls [n])\<rparr>, None) \<and> mirrors n T"
proof -
  from createDomNode_mirrors [OF assms(2)] obtain n where "createDomNode doc T = Inr (Some n)" "mirrors n T"
    by blast
  with assms(1) show ?thesis by (intro exI [of _ n]) (simp add: Render_def)
qed

text \<open>
  Witness for C1: the example page rendered into the container \<^verbatim>\<open>app\<close>, which holds a
  placeholder child before the call.
\<close>

theorem Render_mirrors_witness:
  "\<exists>n. Render example_document (NewRenderer example_document ''app'') (Some page)
        = (\<lparr>container = Some (ElementNode ''div'' [(''id'', JSString ''app'')] [] [n])\<rparr>, None) \<and> mirrors n page"
proof -
  have c: "container (NewRenderer example_document ''app'' :: (string, nat) Renderer)
             = Some (ElementNode ''div'' [(''id'', JSString ''app'')] [] [TextNode ''Loading''])"
    by (simp add: NewRenderer_def getElementById_def example_document_def)
  have a: "host_accepts example_document page"
    by (simp add: page_def example_document_def)
  from Render_mirrors [OF c a] show ?thesis
    by (simp add: NewRenderer_def getElementById_def example_document_def)
qed

text \<open>
  Counterexample to C1 as stated (every tree): an element node with the empty tag is a
  virtual node of the data model, the host throws on \<^verbatim>\<open>createElement("")\<close>, and
  \<open>Render\<close> panics after it has emptied the container: the container ends with no child
  at all, and no host node mirrors the tree.
\<close>

theorem Render_invalid_tag_counterexample:
  "Render (example_document :: (string, nat) document)
      \<lparr>container = Some (ElementNode ''div'' [] [] [TextNode ''old''])\<rparr>
      (Some (VNode VNodeElement [] [] [] [] []))
     = (\<lparr>container = Some (ElementNode ''div'' [] [] [])\<rparr>, Some (JSError InvalidCharacterError))"
  by (simp add: Render_def createElement_def example_document_def)

subsection \<open>A container that does not exist\<close>

text \<open>
  Claim C3. When the container identifier resolves to no host node, the renderer holds
  \<^verbatim>\<open>null\<close>, and every call of \<open>Render\<close>, with a tree or with nil, stops with the
  \<^verbatim>\<open>ValueError\<close> panic of \<^verbatim>\<open>Value.Set\<close>: the call never returns normally.
\<close>

theorem Render_unbound_container_panics:
  "getElementById doc containerID = None \<Longrightarrow>
     Render doc (NewRenderer doc containerID) vnode =
       (NewRenderer doc containerID, Some (ValueError ''Value.Set'' TypeNull))"
  by (simp add: Render_def NewRenderer_def)

text \<open>
  Witness for C3: the identifier \<^verbatim>\<open>missing\<close> in the example document.
\<close>

theorem Render_unbound_container_panics_witness:
  "getElementById (example_document :: (string, nat) document) ''missing'' = None \<and>
   Render example_document (NewRenderer example_document ''missing'') (Some page) =
       (\<lparr>container = None\<rparr>, Some (ValueError ''Value.Set'' TypeNull))"
proof -
  have h: "getElementById (example_document :: (string, nat) document) ''missing'' = None"
    by (simp add: getElementById_def example_document_def)
  from Render_unbound_container_panics [OF h, of "Some page"] h show ?thesis
    by (simp add: NewRenderer_def)
qed

subsection \<open>Rendering nil\<close>

text \<open>
  Claim C4. On a bound container, \<open>Render\<close> with a nil root returns without a panic and
  leaves the container with no child.
\<close>

theorem Render_nil_empties_container:
  "container r = Some c \<Longrightarrow>
     Render doc r None = (r\<lparr>container := Some (set_innerHTML_empty c)\<rparr>, None) \<and>
     childNodes (set_innerHTML_empty c) = []"
  by (cases c) (simp_all add: Render_def)

text \<open>
  Witness for C4: a container with two children.
\<close>

theorem Render_nil_empties_container_witness:
  "Render (example_document :: (string, nat) document)
      \<lparr>container = Some (ElementNode ''div'' [] [] [TextNode ''old'', ElementNode ''p'' [] [] []])\<rparr> None
     = (\<lparr>container = Some (ElementNode ''div'' [] [] [])\<rparr>, None)"
  using Render_nil_empties_container [of "\<lparr>container = Some (ElementNode ''div'' [] [] [TextNode ''old'', ElementNode ''p'' [] [] []])\<rparr>"
      "ElementNode ''div'' [] [] [TextNode ''old'', ElementNode ''p'' [] [] []]" "example_document :: (string, nat) document"]
  by simp

subsection \<open>The container never has more than one child\<close>

text \<open>
  Claim C9. After any call of \<open>Render\<close> on a container element, whether it returned or
  panicked, the container has at most one child: none when the root is nil, and exactly the
  instantiated root when the root is not nil and \<open>createDomNode\<close> returns a node for it.
\<close>

theorem Render_at_most_one_child:
  assumes "container r = Some (ElementNode tag attrs ls old)"
  shows "\<exists>cs. container (fst (Render doc r vnode)) = Some (ElementNode tag attrs ls cs) \<and>
           length cs \<le> 1 \<and>
           (vnode = None \<longrightarrow> cs = []) \<and>
           (\<forall>v n. vnode = Some v \<and> createDomNode doc v = Inr (Some n) \<longrightarrow> cs = [n])"
proof (cases vnode)
  case None
  with assms show ?thesis by (simp add: Render_def)
next
  case (Some v)
  show ?thesis
  proof (cases "createDomNode doc v")
    case (Inl p)
    with Some assms show ?thesis by (simp add: Render_def)
  next
    case (Inr domNode)
    with Some assms show ?thesis by (cases domNode) (simp_all add: Render_def)
  qed
qed

text \<open>
  Witness for C9: a text root rendered into a container with two children.
\<close>

theorem Render_at_most_one_child_witness:
  "container (fst (Render (example_document :: (string, nat) document)
      \<lparr>container = Some (ElementNode ''div'' [] [] [TextNode ''a'', TextNode ''b''])\<rparr>
      (Some (VNode VNodeText [] [] [] [] ''hi''))))
     = Some (ElementNode ''div'' [] [] [TextNode ''hi''])"
proof -
  have c: "container \<lparr>container = Some (ElementNode ''div'' [] [] [TextNode ''a'', TextNode ''b''] :: (string, nat) dom_node)\<rparr>
             = Some (ElementNode ''div'' [] [] [TextNode ''a'', TextNode ''b''])"
    by simp
  have n: "createDomNode (example_document :: (string, nat) document) (VNode VNodeText [] [] [] [] ''hi'') = Inr (Some (TextNode ''hi''))"
    by (simp add: createTextNode_def)
  from Render_at_most_one_child [OF c, of example_document "Some (VNode VNodeText [] [] [] [] ''hi'')"] n
  show ?thesis by auto
qed

subsection \<open>Children\<close>

text \<open>
  Claim C5, as amended. For every element node: when the element itself cannot be made
  (the node without its children does not instantiate), the render stops there. Otherwise
  the children are instantiated in order. A child whose instantiation returns
  \<^verbatim>\<open>js.Null()\<close> is left out and the loop goes on with its siblings. The first child that
  is a nil pointer or whose instantiation panics (the host rejects one of its names,
  \<^verbatim>\<open>ValueOf\<close> rejects one of its values) stops the whole render with its panic. When no
  child does, the render of the node returns the element with, as children, the nodes that
  the children returned, in order.
\<close>

theorem children_loop_outcome:
  "createDomNode doc (VNode VNodeElement tag props handlers children t) =
     (case createDomNode doc (VNode VNodeElement tag props handlers [] t) of
        Inl p \<Rightarrow> Inl p
      | Inr r \<Rightarrow>
          (case r of
             None \<Rightarrow> Inr None
           | Some el \<Rightarrow>
               (case first_panic doc children of
                  Some p \<Rightarrow> Inl p
                | None \<Rightarrow>
                    Inr (Some (ElementNode (tagName el) (attributes el) (listeners el)
                                 (usable_nodes doc children))))))"
proof -
  have "usable_nodes doc [] = []"
    by (simp add: usable_nodes_def List.map_filter_simps)
  then show ?thesis
    by (simp add: createDomNode_Element_eq del: createDomNode.simps split: option.splits)
qed

text \<open>
  Witness for C5: the second of three children has a node type that is neither text nor
  element; its two siblings are appended.
\<close>

theorem children_loop_outcome_witness:
  "createDomNode (example_document :: (string, nat) document)
     (VNode VNodeElement ''ul'' [] []
        [Some (VNode VNodeText [] [] [] [] ''a''),
         Some (VNode VNodeOther [] [] [] [] []),
         Some (VNode VNodeText [] [] [] [] ''b'')] [])
   = Inr (Some (ElementNode ''ul'' [] [] [TextNode ''a'', TextNode ''b'']))"
proof -
  have e: "createDomNode (example_document :: (string, nat) document) (VNode VNodeElement ''ul'' [] [] [] [])
             = Inr (Some (ElementNode ''ul'' [] [] []))"
    by (simp add: createElement_def example_document_def)
  show ?thesis
    using children_loop_outcome [of "example_document :: (string, nat) document" "''ul''" "[]" "[]"
        "[Some (VNode VNodeText [] [] [] [] ''a''), Some (VNode VNodeOther [] [] [] [] []),
          Some (VNode VNodeText [] [] [] [] ''b'')]" "[]"] e
    by (simp add: usable_nodes_def List.map_filter_simps createTextNode_def)
qed

text \<open>
  Counterexample to C5 as stated. The instantiation of an element with the empty tag
  yields no host node: the host throws. As the second of three children, it is not left
  out: the render of the whole node panics, and its siblings are not appended. A nil child
  pointer does the same.
\<close>

theorem failing_child_stops_render_counterexample:
  "createDomNode (example_document :: (string, nat) document) (VNode VNodeElement [] [] [] [] [])
     = Inl (JSError InvalidCharacterError) \<and>
   createDomNode (example_document :: (string, nat) document)
     (VNode VNodeElement ''ul'' [] []
        [Some (VNode VNodeText [] [] [] [] ''a''),
         Some (VNode VNodeElement [] [] [] [] []),
         Some (VNode VNodeText [] [] [] [] ''b'')] [])
     = Inl (JSError InvalidCharacterError) \<and>
   createDomNode (example_document :: (string, nat) document)
     (VNode VNodeElement ''ul'' [] []
        [Some (VNode VNodeText [] [] [] [] ''a''),
         None,
         Some (VNode VNodeText [] [] [] [] ''b'')] [])
     = Inl NilPointerDereference"
  by (simp add: createElement_def createTextNode_def example_document_def)

subsection \<open>Attributes\<close>




subsection \<open>Events\<close>

text \<open>
  Claim C7. A Button with a click callback, in a document that accepts the tag
  \<^verbatim>\<open>button\<close> and the attribute name \<^verbatim>\<open>disabled\<close>, renders to an element on which
  every click event runs the callback once: one event has the effect of one call, and a
  sequence of events the effect of as many calls as there are events.
\<close>

theorem Button_click_invokes_callback_once:
  assumes "onClick b = Some callback"
    and "valid_element_name doc ''button''" and "valid_attribute_name doc ''disabled''"
  shows "\<exists>el. createDomNode doc (Button_Render b) = Inr (Some el) \<and>
           (\<forall>this ev s. dispatchEvent el ''click'' this ev s = callback s) \<and>
           (\<forall>this evs s. fold (dispatchEvent el ''click'' this) evs s = (callback ^^ length evs) s)"
proof -
  have acc: "host_accepts doc (Button_Render b)"
    using assms(2,3) by (simp add: Button_Render_def)
  from createDomNode_mirrors [OF acc] obtain el where
    el: "createDomNode doc (Button_Render b) = Inr (Some el)" by blast
  have one: "dispatchEvent el ''click'' this ev s = callback s" for this ev s
    using dispatch_registered [of doc "''button''" _ "[(''click'', callback)]" _ _ el "''click''" callback]
      el assms(1) by (simp add: Button_Render_def)
  have many: "fold (dispatchEvent el ''click'' this) evs s = (callback ^^ length evs) s" for this evs s
    by (induction evs arbitrary: s) (simp_all add: one funpow_swap1)
  from el one many show ?thesis by blast
qed

text \<open>
  Witness for C7: a button whose callback counts; one click counts to one, three clicks
  to three.
\<close>

theorem Button_click_invokes_callback_once_witness:
  "\<exists>el. createDomNode (example_document :: (string, nat) document)
           (Button_Render \<lparr>label = ''Click me!'', onClick = Some Suc, disabled = False\<rparr>) = Inr (Some el) \<and>
        dispatchEvent el ''click'' ''button'' ''click-1'' 0 = 1 \<and>
        fold (dispatchEvent el ''click'' ''button'') [''click-1'', ''click-2'', ''click-3''] 0 = 3"
proof -
  have c: "onClick \<lparr>label = ''Click me!'', onClick = Some (Suc :: nat \<Rightarrow> nat), disabled = False\<rparr> = Some Suc" by simp
  have e: "valid_element_name (example_document :: (string, nat) document) ''button''"
    by (simp add: example_document_def)
  have a: "valid_attribute_name (example_document :: (string, nat) document) ''disabled''"
    by (simp add: example_document_def)
  from Button_click_invokes_callback_once [OF c e a] obtain el where
    "createDomNode (example_document :: (string, nat) document)
           (Button_Render \<lparr>label = ''Click me!'', onClick = Some Suc, disabled = False\<rparr>) = Inr (Some el)"
    "\<forall>this ev s. dispatchEvent el ''click'' this ev s = Suc s"
    "\<forall>this evs s. fold (dispatchEvent el ''click'' this) evs s = (Suc ^^ length evs) s"
    by blast
  then show ?thesis by (intro exI [of _ el]) simp
qed

text \<open>
  Claim C2, as amended. The listener that the renderer attaches for the event
  \<^verbatim>\<open>change\<close> calls the handler registered under that name, without arguments: the
  effect of a dispatched change event is that of the handler alone, whatever the receiver
  \<open>this\<close> and the native event \<open>ev\<close> are.
\<close>

theorem change_listener_ignores_event:
  assumes "createDomNode doc (VNode VNodeElement tag props handlers children t) = Inr (Some el)"
    and "distinct (map fst handlers)" and "(''change'', handler) \<in> set handlers"
  shows "dispatchEvent el ''change'' this ev s = handler s"
  using dispatch_registered [OF assms] .

text \<open>
  Witness for C2: a counting handler on an input; a change event counts one.
\<close>

theorem change_listener_ignores_event_witness:
  "dispatchEvent (ElementNode ''input'' [(''type'', JSString ''text'')] [(''change'', listener Suc)] [])
      ''change'' ''input'' ''typed text'' (0 :: nat) = 1"
proof -
  have c: "createDomNode (example_document :: (string, nat) document)
             (VNode VNodeElement ''input'' [(''type'', GoString ''text'')] [(''change'', Suc)] [] [])
           = Inr (Some (ElementNode ''input'' [(''type'', JSString ''text'')] [(''change'', listener Suc)] []))"
    by (simp add: createElement_def example_document_def)
  have d: "distinct (map fst [(''change'', Suc :: nat \<Rightarrow> nat)])" by simp
  have m: "(''change'', Suc) \<in> set [(''change'', Suc :: nat \<Rightarrow> nat)]" by simp
  from change_listener_ignores_event [OF c d m, of "''input''" "''typed text''" 0] show ?thesis by simp
qed

text \<open>
  Counterexample to C2 as stated. Let the application state be the list of values that the
  change callback has received, and let the native event be the value that the host
  reports. No zero-argument handler that a component could register makes a change event
  with value \<open>v\<close> record \<open>v\<close>: the listener passes nothing on.
\<close>

theorem change_value_not_passed_counterexample:
  "\<not> (\<exists>handler :: string list \<Rightarrow> string list. \<forall>v. \<exists>el.
        createDomNode (example_document :: (string, string list) document) (text_input handler) = Inr (Some el) \<and>
        dispatchEvent el ''change'' ''input'' v [] = [v])"
proof
  assume "\<exists>handler :: string list \<Rightarrow> string list. \<forall>v. \<exists>el.
        createDomNode (example_document :: (string, string list) document) (text_input handler) = Inr (Some el) \<and>
        dispatchEvent el ''change'' ''input'' v [] = [v]"
  then obtain handler :: "string list \<Rightarrow> string list" where h: "\<forall>v. \<exists>el.
        createDomNode (example_document :: (string, string list) document) (text_input handler) = Inr (Some el) \<and>
        dispatchEvent el ''change'' ''input'' v [] = [v]" by blast
  have c: "createDomNode (example_document :: (string, string list) document) (text_input handler)
           = Inr (Some (ElementNode ''input'' [(''type'', JSString ''text'')] [(''change'', listener handler)] []))"
    by (simp add: text_input_def createElement_def example_document_def)
  have r: "handler [] = [v]" for v
  proof -
    from h obtain el where el: "createDomNode (example_document :: (string, string list) document) (text_input handler) = Inr (Some el)"
      "dispatchEvent el ''change'' ''input'' v [] = [v]" by blast
    from el(1) c have "el = ElementNode ''input'' [(''type'', JSString ''text'')] [(''change'', listener handler)] []"
      by simp
    with el(2) show ?thesis by (simp add: listener_def)
  qed
  have "handler [] = [''a'']" by (rule r)
  moreover have "handler [] = [''b'']" by (rule r)
  ultimately show False by simp
qed

section \<open>Properties of the init command\<close>

subsection \<open>Paths\<close>

lemma split_on_not_Nil: "split_on sep s \<noteq> []"
  by (induction s) (auto split: list.splits)

lemma split_on_no_sep: "x \<in> set (split_on sep s) \<Longrightarrow> sep \<notin> set x"
  by (induction s arbitrary: x) (auto split: list.splits if_splits)

lemma split_on_single: "sep \<notin> set f \<Longrightarrow> split_on sep f = [f]"
  by (induction f) auto

lemma split_on_append: "split_on sep (a @ sep # b) = split_on sep a @ split_on sep b"
proof (induction a)
  case Nil
  then show ?case by simp
next
  case (Cons c a)
  then show ?case
    using split_on_not_Nil [of sep a] by (auto split: list.splits)
qed

lemma strings_Join_snoc:
  "strings_Join (xs @ [f]) sep = (if xs = [] then f else strings_Join xs sep @ sep @ f)"
  by (induction xs sep rule: strings_Join.induct) auto

lemma split_on_join:
  "xs \<noteq> [] \<Longrightarrow> \<forall>x \<in> set xs. sep \<notin> set x \<Longrightarrow> split_on sep (strings_Join xs [sep]) = xs"
proof (induction xs "[sep]" rule: strings_Join.induct)
  case 1
  then show ?case by simp
next
  case (2 x)
  then show ?case by (simp add: split_on_single)
next
  case (3 x y ys)
  then show ?case
    using split_on_append [of sep x "strings_Join (y # ys) [sep]"]
    by (simp add: split_on_single)
qed

lemma clean_step_ok:
  "kept_ok r st \<Longrightarrow> CHR ''/'' \<notin> set c \<Longrightarrow> kept_ok r (clean_step r st c)"
  by (cases st) (auto simp: clean_step_def plain_def)

lemma foldl_clean_step_ok:
  "kept_ok r st \<Longrightarrow> \<forall>c \<in> set cs. CHR ''/'' \<notin> set c \<Longrightarrow> kept_ok r (foldl (clean_step r) st cs)"
  by (induction cs arbitrary: st) (auto simp: clean_step_ok)

lemma replay: "kept_ok r st \<Longrightarrow> foldl (clean_step r) [] (rev st) = st"
proof (induction st)
  case Nil
  then show ?case by simp
next
  case (Cons x xs)
  then have "foldl (clean_step r) [] (rev xs) = xs" by simp
  moreover have "clean_step r xs x = x # xs"
    using Cons.prems by (cases xs) (auto simp: clean_step_def plain_def)
  ultimately show ?case by simp
qed

lemma Clean_render: "path \<noteq> [] \<Longrightarrow> Clean path = render (hd path = CHR ''/'') (rev (resolve path))"
  by (simp add: Clean_def render_def resolve_def Let_def)

lemma resolve_ok: "kept_ok (hd path = CHR ''/'') (resolve path)"
  unfolding resolve_def
  by (rule foldl_clean_step_ok) (auto dest: split_on_no_sep)

lemma kept_ok_elems: "kept_ok r st \<Longrightarrow> x \<in> set st \<Longrightarrow> x \<noteq> [] \<and> x \<noteq> ''.'' \<and> CHR ''/'' \<notin> set x"
proof (induction st)
  case Nil
  then show ?case by simp
next
  case (Cons y ys)
  have dots: "''..'' \<noteq> [] \<and> ''..'' \<noteq> ''.'' \<and> CHR ''/'' \<notin> set ''..''" by simp
  show ?case
  proof (cases "x = y")
    case True
    from Cons.prems(1) have "plain y \<or> y = ''..''" by auto
    then show ?thesis using True dots by (auto simp only: plain_def)
  next
    case False
    with Cons show ?thesis by simp
  qed
qed

lemma kept_ok_rooted: "kept_ok True st \<Longrightarrow> x \<in> set st \<Longrightarrow> plain x"
  by (induction st) auto

lemma strings_Join_Nil_iff:
  "\<forall>x \<in> set xs. x \<noteq> [] \<Longrightarrow> strings_Join xs sep = [] \<longleftrightarrow> xs = []"
  by (induction xs sep rule: strings_Join.induct) auto

lemma hd_strings_Join:
  "xs \<noteq> [] \<Longrightarrow> hd xs \<noteq> [] \<Longrightarrow> hd (strings_Join xs sep) = hd (hd xs)"
  by (induction xs sep rule: strings_Join.induct) auto

lemma clean_step_plain: "plain f \<Longrightarrow> clean_step r st f = f # st"
  by (simp add: clean_step_def plain_def)

lemma clean_step_empty: "clean_step r st [] = st"
  by (simp add: clean_step_def)

lemma Clean_dot: "Clean ''.'' = ''.''"
  by (simp add: Clean_def clean_step_def)

lemma kept_hd_not_slash:
  assumes "kept_ok r st" and "st \<noteq> []"
  shows "hd (strings_Join (rev st) ''/'') \<noteq> CHR ''/''"
proof -
  from assms(2) have ne: "rev st \<noteq> []" by simp
  then have "hd (rev st) \<in> set st" by (metis hd_in_set set_rev)
  from kept_ok_elems [OF assms(1) this]
  have e: "hd (rev st) \<noteq> []" "CHR ''/'' \<notin> set (hd (rev st))" by auto
  then have "hd (hd (rev st)) \<noteq> CHR ''/''" by (metis hd_in_set)
  with hd_strings_Join [OF ne e(1)] show ?thesis by simp
qed

lemma kept_join_not_Nil:
  assumes "kept_ok r st" and "st \<noteq> []"
  shows "strings_Join (rev st) ''/'' \<noteq> []"
proof -
  have "\<forall>x \<in> set (rev st). x \<noteq> []"
    using kept_ok_elems [OF assms(1)] by auto
  from strings_Join_Nil_iff [OF this] assms(2) show ?thesis by simp
qed

lemma kept_split_join:
  assumes "kept_ok r st" and "st \<noteq> []"
  shows "split_on (CHR ''/'') (strings_Join (rev st) ''/'') = rev st"
proof -
  have "\<forall>x \<in> set (rev st). CHR ''/'' \<notin> set x"
    using kept_ok_elems [OF assms(1)] by auto
  with assms(2) split_on_join [of "rev st" "CHR ''/''"] show ?thesis by simp
qed

lemma resolve_render:
  assumes "kept_ok r st"
  shows "render r (rev st) \<noteq> [] \<and> (hd (render r (rev st)) = CHR ''/'') = r \<and>
         resolve (render r (rev st)) = st"
proof (cases r)
  case True
  show ?thesis
  proof (cases "st = []")
    case True
    with \<open>r\<close> show ?thesis
      by (simp add: render_def resolve_def clean_step_empty)
  next
    case False
    from kept_split_join [OF assms False] replay [OF assms] \<open>r\<close> show ?thesis
      by (simp add: render_def resolve_def clean_step_empty)
  qed
next
  case False
  show ?thesis
  proof (cases "st = []")
    case True
    with \<open>\<not> r\<close> show ?thesis
      by (simp add: render_def resolve_def clean_step_def)
  next
    case ne: False
    from kept_join_not_Nil [OF assms ne] kept_hd_not_slash [OF assms ne]
      kept_split_join [OF assms ne] replay [OF assms] \<open>\<not> r\<close>
    show ?thesis by (simp add: render_def resolve_def)
  qed
qed

lemma Clean_not_Nil: "Clean path \<noteq> []"
proof (cases "path = []")
  case True
  then show ?thesis by (simp add: Clean_def)
next
  case False
  with resolve_render [OF resolve_ok [of path]] show ?thesis
    by (simp add: Clean_render)
qed

lemma Clean_Clean: "Clean (Clean path) = Clean path"
proof (cases "path = []")
  case True
  then show ?thesis using Clean_dot by (simp add: Clean_def)
next
  case False
  let ?r = "hd path = CHR ''/''"
  let ?q = "render ?r (rev (resolve path))"
  from resolve_render [OF resolve_ok [of path]]
  have q: "?q \<noteq> []" "(hd ?q = CHR ''/'') = ?r" "resolve ?q = resolve path" by auto
  have "Clean ?q = render (hd ?q = CHR ''/'') (rev (resolve ?q))"
    using q(1) by (rule Clean_render)
  also have "\<dots> = ?q" using q(2,3) by simp
  finally show ?thesis using False by (simp add: Clean_render)
qed

lemma resolve_snoc:
  assumes "path \<noteq> []" and "plain f"
  shows "resolve (path @ ''/'' @ f) = f # resolve path"
proof -
  have "split_on (CHR ''/'') (path @ CHR ''/'' # f) = split_on (CHR ''/'') path @ [f]"
    using assms(2) by (simp add: split_on_append split_on_single plain_def)
  moreover have "hd (path @ ''/'' @ f) = hd path" using assms(1) by simp
  ultimately show ?thesis
    using assms(2) by (simp add: resolve_def clean_step_plain)
qed

lemma Clean_snoc:
  assumes "path \<noteq> []" and "plain f"
  shows "Clean (path @ ''/'' @ f) = dir_prefix (Clean path) @ f"
proof -
  let ?r = "hd path = CHR ''/''"
  let ?st = "resolve path"
  let ?out = "strings_Join (rev ?st) ''/''"
  have ok: "kept_ok ?r ?st" by (rule resolve_ok)
  have f: "f \<noteq> []" using assms(2) by (simp add: plain_def)
  have hd: "hd (path @ ''/'' @ f) = hd path" using assms(1) by simp
  have lhs: "Clean (path @ ''/'' @ f) = render ?r (rev ?st @ [f])"
    using assms(1) Clean_render [of "path @ ''/'' @ f"] resolve_snoc [OF assms] hd by simp
  have rhs: "Clean path = render ?r (rev ?st)"
    using assms(1) by (rule Clean_render)
  show ?thesis
  proof (cases "?st = []")
    case True
    then show ?thesis using lhs rhs f
      by (cases ?r) (simp_all add: render_def dir_prefix_def)
  next
    case False
    have out: "?out \<noteq> []" by (rule kept_join_not_Nil [OF ok False])
    have j: "strings_Join (rev ?st @ [f]) ''/'' = ?out @ ''/'' @ f"
      using False by (simp add: strings_Join_snoc)
    show ?thesis
    proof (cases ?r)
      case True
      have "CHR ''/'' # ?out \<noteq> ''.''" by simp
      moreover have "CHR ''/'' # ?out \<noteq> ''/''" using out by simp
      ultimately show ?thesis using lhs rhs j True
        by (simp add: render_def dir_prefix_def)
    next
      case nr: False
      have "?out \<noteq> ''/''" using kept_hd_not_slash [OF ok False] by auto
      moreover have "?out \<noteq> ''.''"
      proof
        assume dot: "?out = ''.''"
        from kept_split_join [OF ok False] dot have "set (rev ?st) = set [''.'']"
          by (simp add: split_on_single)
        then have "''.'' \<in> set ?st" by simp
        from kept_ok_elems [OF ok this] show False by simp
      qed
      ultimately show ?thesis using lhs rhs j nr out
        by (simp add: render_def dir_prefix_def)
    qed
  qed
qed

lemma Clean_plain: "plain f \<Longrightarrow> Clean f = f"
proof -
  assume p: "plain f"
  then have f: "f \<noteq> []" "hd f \<noteq> CHR ''/''"
    by (auto simp: plain_def) (metis hd_in_set)
  have "resolve f = [f]"
    using p f by (simp add: resolve_def split_on_single plain_def clean_step_plain)
  with f show ?thesis by (simp add: Clean_render render_def)
qed

lemma filepath_Join_plain:
  "plain f \<Longrightarrow> filepath_Join [name, f] = (if name = [] then f else dir_prefix (Clean name) @ f)"
proof (cases "name = []")
  case True
  assume "plain f"
  then show ?thesis using True by (simp add: filepath_Join_def Clean_plain plain_def)
next
  case False
  assume "plain f"
  from Clean_snoc [OF False this] False show ?thesis by (simp add: filepath_Join_def)
qed

subsection \<open>The loop that writes the files\<close>

lemma os_WriteFile_Inl: "write_refused fs' name \<Longrightarrow> \<exists>err. os_WriteFile name data fs' = Inl err"
  by (auto simp: write_refused_def os_WriteFile_def)

lemma os_WriteFile_Inr:
  "\<not> write_refused fs' name \<Longrightarrow>
     os_WriteFile name data fs' = Inr (fs'\<lparr>files := AList.update (Clean name) data (files fs')\<rparr>)"
  by (auto simp: write_refused_def os_WriteFile_def)

lemma write_refused_files [simp]: "write_refused (fs'\<lparr>files := fl\<rparr>) name = write_refused fs' name"
  by (simp add: write_refused_def is_dir_def reachable_def)

lemma written_Nil [simp]: "written projectName [] fl = fl"
  by (simp add: written_def)

lemma written_Cons [simp]:
  "written projectName ((fileName, content) # rest) fl =
     written projectName rest (AList.update (Clean (filepath_Join [projectName, fileName])) (TrimSpace content) fl)"
  by (simp add: written_def)

lemma written_append:
  "written projectName (xs @ ys) fl = written projectName ys (written projectName xs fl)"
  by (simp add: written_def)

lemma create_files_all_written:
  assumes "\<forall>(fileName, content) \<in> set entries. \<not> write_refused (fs p) (filepath_Join [projectName, fileName])"
  shows "create_files projectName entries p =
           (None, p\<lparr>fs := (fs p)\<lparr>files := written projectName entries (files (fs p))\<rparr>,
                    stdout := stdout p @ map (\<lambda>(fileName, content). Created (filepath_Join [projectName, fileName])) entries\<rparr>)"
  using assms
proof (induction entries arbitrary: p)
  case Nil
  then show ?case by simp
next
  case (Cons e rest)
  obtain fileName content where e: "e = (fileName, content)" by (cases e)
  let ?path = "filepath_Join [projectName, fileName]"
  let ?p1 = "print (Created ?path) (p\<lparr>fs := (fs p)\<lparr>files := AList.update (Clean ?path) (TrimSpace content) (files (fs p))\<rparr>\<rparr>)"
  from Cons.prems e have ok: "\<not> write_refused (fs p) ?path" by simp
  have rest: "\<forall>(fileName, content) \<in> set rest. \<not> write_refused (fs ?p1) (filepath_Join [projectName, fileName])"
    using Cons.prems by (simp add: print_def)
  have "create_files projectName (e # rest) p = create_files projectName rest ?p1"
    using e os_WriteFile_Inr [OF ok] by (simp add: Let_def)
  also note Cons.IH [OF rest]
  finally show ?case using e by (simp add: print_def)
qed

lemma create_files_refused:
  assumes "\<exists>(fileName, content) \<in> set entries. write_refused (fs p) (filepath_Join [projectName, fileName])"
  shows "\<exists>pre fileName err.
           set pre \<subseteq> set entries \<and>
           create_files projectName entries p =
             (Some 1,
              p\<lparr>fs := snd (os_RemoveAll projectName ((fs p)\<lparr>files := written projectName pre (files (fs p))\<rparr>)),
                stdout := stdout p @ map (\<lambda>(fileName, content). Created (filepath_Join [projectName, fileName])) pre
                            @ [ErrorCreatingFile fileName err]\<rparr>)"
  using assms
proof (induction entries arbitrary: p)
  case Nil
  then show ?case by simp
next
  case (Cons e rest)
  obtain fileName content where e: "e = (fileName, content)" by (cases e)
  let ?path = "filepath_Join [projectName, fileName]"
  show ?case
  proof (cases "write_refused (fs p) ?path")
    case True
    from os_WriteFile_Inl [OF True, of "TrimSpace content"] obtain err
      where err: "os_WriteFile ?path (TrimSpace content) (fs p) = Inl err" by blast
    have "create_files projectName (e # rest) p =
            (Some 1, p\<lparr>fs := snd (os_RemoveAll projectName ((fs p)\<lparr>files := written projectName [] (files (fs p))\<rparr>)),
                stdout := stdout p @ map (\<lambda>(fileName, content). Created (filepath_Join [projectName, fileName])) []
                            @ [ErrorCreatingFile fileName err]\<rparr>)"
      using e err by (simp add: print_def Let_def)
    then show ?thesis by (intro exI [of _ "[]"] exI [of _ fileName] exI [of _ err]) simp
  next
    case False
    let ?p1 = "print (Created ?path) (p\<lparr>fs := (fs p)\<lparr>files := AList.update (Clean ?path) (TrimSpace content) (files (fs p))\<rparr>\<rparr>)"
    have step: "create_files projectName (e # rest) p = create_files projectName rest ?p1"
      using e os_WriteFile_Inr [OF False] by (simp add: Let_def)
    from Cons.prems e False
    have "\<exists>(fileName, content) \<in> set rest. write_refused (fs ?p1) (filepath_Join [projectName, fileName])"
      by (auto simp: print_def)
    from Cons.IH [OF this] obtain pre' fileName' err' where d:
      "set pre' \<subseteq> set rest"
      "create_files projectName rest ?p1 =
             (Some 1,
              ?p1\<lparr>fs := snd (os_RemoveAll projectName ((fs ?p1)\<lparr>files := written projectName pre' (files (fs ?p1))\<rparr>)),
                stdout := stdout ?p1 @ map (\<lambda>(fileName, content). Created (filepath_Join [projectName, fileName])) pre'
                            @ [ErrorCreatingFile fileName' err']\<rparr>)"
      by blast
    show ?thesis
      by (intro exI [of _ "e # pre'"] exI [of _ fileName'] exI [of _ err'])
         (use d step e in \<open>auto simp: print_def\<close>)
  qed
qed

lemma set_range_map: "set (range_map order m) = set m"
  by (simp add: range_map_def)

lemma distinct_range_map:
  assumes "distinct (map fst m)"
  shows "distinct (map fst (range_map order m))"
proof (cases "distinct order \<and> set order = set m")
  case True
  from assms have "inj_on fst (set m)" by (simp add: distinct_map)
  with True have "distinct (map fst order)" by (simp add: distinct_map)
  with True show ?thesis by (simp add: range_map_def)
next
  case False
  then have "range_map order m = m" by (auto simp: range_map_def)
  with assms show ?thesis by simp
qed

lemma plain_fileNames: "(fileName, content) \<in> set (filesToCreate projectName) \<Longrightarrow> plain fileName"
  by (auto simp: filesToCreate_def plain_def)

lemma distinct_fileNames: "distinct (map fst (filesToCreate projectName))"
  by (simp add: filesToCreate_def)

lemma os_Mkdir_Inr:
  "os_Mkdir name fs0 = Inr fs1 \<longleftrightarrow>
     name \<noteq> [] \<and> \<not> invalid_path name \<and> reachable fs0 name \<and>
     \<not> path_exists fs0 (Clean name) \<and> \<not> fault fs0 (Mkdir name) \<and>
     fs1 = fs0\<lparr>dirs := Clean name # dirs fs0\<rparr>"
  by (auto simp: os_Mkdir_def)

lemma reachable_mono:
  "reachable fs0 name \<Longrightarrow> set (dirs fs0) \<subseteq> set (dirs fs1) \<Longrightarrow> reachable fs1 name"
  by (auto simp: reachable_def is_dir_def)

lemma os_Mkdir_exists: "path_exists fs0 (Clean name) \<Longrightarrow> \<exists>err. os_Mkdir name fs0 = Inl err"
  by (simp add: os_Mkdir_def)

lemma new_directory_path:
  assumes "name \<noteq> []" and "Clean name \<noteq> ''.''" and "Clean name \<noteq> ''/''" and "plain f"
  shows "filepath_Join [name, f] = Clean name @ ''/'' @ f"
    and "Clean (filepath_Join [name, f]) = Clean name @ ''/'' @ f"
proof -
  show j: "filepath_Join [name, f] = Clean name @ ''/'' @ f"
    using assms by (simp add: filepath_Join_plain dir_prefix_def)
  have "Clean (Clean name @ ''/'' @ f) = dir_prefix (Clean (Clean name)) @ f"
    using Clean_snoc [OF Clean_not_Nil assms(4)] .
  then show "Clean (filepath_Join [name, f]) = Clean name @ ''/'' @ f"
    using j assms(2,3) by (simp add: Clean_Clean dir_prefix_def)
qed

lemma map_of_written:
  "map_of (written projectName entries fl) =
     map_of fl ++
     map_of (rev (map (\<lambda>(fileName, content).
                         (Clean (filepath_Join [projectName, fileName]), TrimSpace content)) entries))"
proof (induction entries arbitrary: fl)
  case Nil
  then show ?case by simp
next
  case (Cons e rest)
  obtain fileName content where e: "e = (fileName, content)" by (cases e)
  have "map_of (AList.update k v fl) ++ m = (map_of fl ++ [k \<mapsto> v]) ++ m" for k v and m :: "string \<rightharpoonup> string"
    by (simp add: update_conv')
  then show ?case using e Cons.IH by simp

qed

lemma map_of_written_new:
  assumes "name \<noteq> []" and "Clean name \<noteq> ''.''" and "Clean name \<noteq> ''/''"
    and "set entries = set (filesToCreate name)" and "distinct (map fst entries)"
  shows "map_of (written name entries fl) =
           map_of fl ++
           map_of (map (\<lambda>(fileName, content). (Clean name @ ''/'' @ fileName, TrimSpace content))
                     (filesToCreate name))"
proof -
  let ?g = "\<lambda>(fileName, content). (Clean (filepath_Join [name, fileName]), TrimSpace content)"
  let ?h = "\<lambda>(fileName, content). (Clean name @ ''/'' @ fileName, TrimSpace content)"
  have gh: "map ?g xs = map ?h xs" if "set xs \<subseteq> set (filesToCreate name)" for xs
    using that new_directory_path(2) [OF assms(1-3)] plain_fileNames [of _ _ name]
    by (induction xs) auto
  have keys: "map fst (map ?h xs) = map (\<lambda>f. Clean name @ ''/'' @ f) (map fst xs)" for xs
    by (induction xs) auto
  have inj: "inj (\<lambda>f. Clean name @ ''/'' @ f)" by (simp add: inj_on_def)
  have d1: "distinct (map fst (rev (map ?h entries)))"
    using assms(5) keys [of entries] inj by (simp add: distinct_map rev_map [symmetric] inj_on_def)
  have d2: "distinct (map fst (map ?h (filesToCreate name)))"
    using distinct_fileNames [of name] keys [of "filesToCreate name"] inj
    by (simp add: distinct_map inj_on_def)
  have "set (rev (map ?h entries)) = set (map ?h (filesToCreate name))"
    using assms(4) by simp
  with d1 d2 have "map_of (rev (map ?h entries)) = map_of (map ?h (filesToCreate name))"
    by (simp add: map_of_inject_set)
  then show ?thesis
    using map_of_written [of name entries fl] gh [of entries] assms(4) by simp
qed

lemma filter_update_below:
  "P k \<Longrightarrow> filter (\<lambda>(q, d). \<not> P q) (AList.update k v al) = filter (\<lambda>(q, d). \<not> P q) al"
  by (induction al) auto

lemma filter_written_below:
  assumes "name \<noteq> []" and "Clean name \<noteq> ''.''" and "Clean name \<noteq> ''/''"
    and "set entries \<subseteq> set (filesToCreate name)"
  shows "filter (\<lambda>(q, d). \<not> below (Clean name) q) (written name entries fl) =
           filter (\<lambda>(q, d). \<not> below (Clean name) q) fl"
  using assms(4)
proof (induction entries arbitrary: fl)
  case Nil
  then show ?case by simp
next
  case (Cons e rest)
  obtain fileName content where e: "e = (fileName, content)" by (cases e)
  with Cons.prems have "plain fileName" by (auto intro: plain_fileNames)
  from new_directory_path(2) [OF assms(1-3) this]
  have "below (Clean name) (Clean (filepath_Join [name, fileName]))"
    by (simp add: below_def)
  then show ?case using e Cons
    by (simp add: filter_update_below [where P = "below (Clean name)"])
qed

subsection \<open>The three ways in which runInit ends\<close>

lemma fs_print: "fs (print m p) = fs p"
  by (simp add: print_def)

lemma runInit_unfold:
  "runInit order [name] p =
     (case os_Mkdir name (fs p) of
        Inl err \<Rightarrow> (Exit 1, print (ErrorCreatingDirectory err) (print (Initializing name) p))
      | Inr fs1 \<Rightarrow>
          (case create_files name (range_map order (filesToCreate name))
                  ((print (Initializing name) p)\<lparr>fs := fs1\<rparr>) of
             (Some code, p2) \<Rightarrow> (Exit code, p2)
           | (None, p2) \<Rightarrow>
               (Returned,
                print StepOpen (print StepDev (print StepBuild (print (StepCd name)
                  (print NextSteps (print (ProjectCreated name) p2))))))))"
  by (simp add: runInit_def Let_def fs_print)

lemma runInit_directory_exists:
  assumes "path_exists (fs p) (Clean name)"
  shows "\<exists>err. runInit order [name] p =
           (Exit 1, print (ErrorCreatingDirectory err) (print (Initializing name) p))"
proof -
  from os_Mkdir_exists [OF assms] obtain err where "os_Mkdir name (fs p) = Inl err" by blast
  then have "runInit order [name] p =
           (Exit 1, print (ErrorCreatingDirectory err) (print (Initializing name) p))"
    by (simp add: runInit_unfold)
  then show ?thesis by blast
qed

lemma runInit_mkdir_fails:
  assumes "os_Mkdir name (fs p) = Inl err"
  shows "runInit order [name] p =
           (Exit 1, print (ErrorCreatingDirectory err) (print (Initializing name) p))"
  using assms by (simp add: runInit_unfold)

lemma runInit_write_refused:
  assumes mk: "os_Mkdir name (fs p) = Inr fs1"
    and bad: "\<exists>(fileName, content) \<in> set (filesToCreate name). write_refused fs1 (filepath_Join [name, fileName])"
  shows "\<exists>p' pre. runInit order [name] p = (Exit 1, p') \<and>
           set pre \<subseteq> set (filesToCreate name) \<and>
           fs p' = snd (os_RemoveAll name (fs1\<lparr>files := written name pre (files (fs p))\<rparr>)) \<and>
           (\<not> fault (fs p) (RemoveAll name) \<longrightarrow>
              fs p' = (fs p)\<lparr>dirs := filter (\<lambda>q. \<not> below (Clean name) q) (dirs (fs p)),
                              files := filter (\<lambda>(q, d). \<not> below (Clean name) q) (files (fs p))\<rparr>)"
proof -
  from mk have name: "name \<noteq> []" and new: "\<not> path_exists (fs p) (Clean name)"
    and fs1: "fs1 = (fs p)\<lparr>dirs := Clean name # dirs (fs p)\<rparr>"
    and valid: "\<not> invalid_path name" and reach: "reachable (fs p) name"
    by (simp_all add: os_Mkdir_Inr)
  from new have nd: "Clean name \<noteq> ''.''" "Clean name \<noteq> ''/''" "Clean name \<notin> set (dirs (fs p))"
    and ndd: "\<not> only_dotdot (Clean name)"
    by (auto simp: path_exists_def is_dir_def)
  let ?p1 = "(print (Initializing name) p)\<lparr>fs := fs1\<rparr>"
  let ?es = "range_map order (filesToCreate name)"
  from bad have "\<exists>(fileName, content) \<in> set ?es. write_refused (fs ?p1) (filepath_Join [name, fileName])"
    by (simp add: set_range_map)
  from create_files_refused [OF this] obtain pre fileName err where d:
    "set pre \<subseteq> set ?es"
    "create_files name ?es ?p1 =
       (Some 1,
        ?p1\<lparr>fs := snd (os_RemoveAll name ((fs ?p1)\<lparr>files := written name pre (files (fs ?p1))\<rparr>)),
           stdout := stdout ?p1 @ map (\<lambda>(fileName, content). Created (filepath_Join [name, fileName])) pre
                       @ [ErrorCreatingFile fileName err]\<rparr>)"
    by blast
  let ?p' = "?p1\<lparr>fs := snd (os_RemoveAll name ((fs ?p1)\<lparr>files := written name pre (files (fs ?p1))\<rparr>)),
           stdout := stdout ?p1 @ map (\<lambda>(fileName, content). Created (filepath_Join [name, fileName])) pre
                       @ [ErrorCreatingFile fileName err]\<rparr>"
  have sub: "set pre \<subseteq> set (filesToCreate name)" using d(1) by (simp add: set_range_map)
  have run: "runInit order [name] p = (Exit 1, ?p')"
    using mk d(2) by (simp add: runInit_unfold)
  have fsp: "fs ?p' = snd (os_RemoveAll name (fs1\<lparr>files := written name pre (files (fs p))\<rparr>))"
    using fs1 by (simp add: print_def)
  have clean: "fs ?p' = (fs p)\<lparr>dirs := filter (\<lambda>q. \<not> below (Clean name) q) (dirs (fs p)),
                              files := filter (\<lambda>(q, d). \<not> below (Clean name) q) (files (fs p))\<rparr>"
    if nf: "\<not> fault (fs p) (RemoveAll name)"
  proof -
    have "reachable (fs1\<lparr>files := written name pre (files (fs p))\<rparr>) name"
      using reach fs1 by (auto intro: reachable_mono)
    then show ?thesis
      using fsp fs1 name nd ndd valid nf filter_written_below [OF name nd(1,2) sub, of "files (fs p)"]
      by (simp add: os_RemoveAll_def below_def)
  qed
  from run sub fsp clean show ?thesis by blast
qed

lemma runInit_succeeds:
  assumes mk: "os_Mkdir name (fs p) = Inr fs1"
    and good: "\<forall>(fileName, content) \<in> set (filesToCreate name). \<not> write_refused fs1 (filepath_Join [name, fileName])"
  shows "\<exists>p'. runInit order [name] p = (Returned, p') \<and>
           dirs (fs p') = Clean name # dirs (fs p) \<and>
           map_of (files (fs p')) =
             map_of (files (fs p)) ++
             map_of (map (\<lambda>(fileName, content). (Clean name @ ''/'' @ fileName, TrimSpace content))
                       (filesToCreate name))"
proof -
  from mk have name: "name \<noteq> []" and new: "\<not> path_exists (fs p) (Clean name)"
    and fs1: "fs1 = (fs p)\<lparr>dirs := Clean name # dirs (fs p)\<rparr>"
    by (simp_all add: os_Mkdir_Inr)
  from new have nd: "Clean name \<noteq> ''.''" "Clean name \<noteq> ''/''"
    by (auto simp: path_exists_def is_dir_def)
  let ?p1 = "(print (Initializing name) p)\<lparr>fs := fs1\<rparr>"
  let ?es = "range_map order (filesToCreate name)"
  from good have "\<forall>(fileName, content) \<in> set ?es. \<not> write_refused (fs ?p1) (filepath_Join [name, fileName])"
    by (simp add: set_range_map)
  note cf = create_files_all_written [OF this]
  let ?p2 = "?p1\<lparr>fs := (fs ?p1)\<lparr>files := written name ?es (files (fs ?p1))\<rparr>,
                 stdout := stdout ?p1 @ map (\<lambda>(fileName, content). Created (filepath_Join [name, fileName])) ?es\<rparr>"
  let ?p' = "print StepOpen (print StepDev (print StepBuild (print (StepCd name)
                  (print NextSteps (print (ProjectCreated name) ?p2)))))"
  have run: "runInit order [name] p = (Returned, ?p')"
    using mk cf by (simp add: runInit_unfold)
  have fsp: "fs ?p' = fs1\<lparr>files := written name ?es (files (fs p))\<rparr>"
    using fs1 by (simp add: print_def)
  have "map_of (written name ?es (files (fs p))) =
          map_of (files (fs p)) ++
          map_of (map (\<lambda>(fileName, content). (Clean name @ ''/'' @ fileName, TrimSpace content))
                       (filesToCreate name))"
    by (rule map_of_written_new [OF name nd set_range_map distinct_range_map [OF distinct_fileNames]])
  with run fsp fs1 show ?thesis by (intro exI [of _ ?p']) simp
qed

lemma gitignore_trimmed:
  "TrimSpace gitignoreTemplate =
     ''# Compiled Wasm file\<newline>app.wasm\<newline>\<newline># JS glue file\<newline>wasm_exec.js''"
  by code_simp

lemma goMod_trimmed_example:
  "TrimSpace (goModTemplate ''my-app'') = ''module my-app\<newline>\<newline>go 1.22''"
  by code_simp

lemma Clean_my_app: "Clean ''my-app'' = ''my-app''"
  by (rule Clean_plain) (simp add: plain_def)

lemma my_app_mkdir_ok:
  "\<not> invalid_path ''my-app'' \<and> ancestors ''my-app'' = [] \<and> \<not> only_dotdot ''my-app''"
  by code_simp

lemma my_app_paths:
  "map (\<lambda>f. filepath_Join [''my-app'', f]) [''main.go'', ''index.html'', ''go.mod'', ''README.md'', ''.gitignore'']
     = [''my-app/main.go'', ''my-app/index.html'', ''my-app/go.mod'', ''my-app/README.md'', ''my-app/.gitignore'']"
  by code_simp

lemma my_app_writes_ok:
  "list_all (\<lambda>path. \<not> write_refused (empty_disk\<lparr>dirs := [''my-app'']\<rparr>) path)
     [''my-app/main.go'', ''my-app/index.html'', ''my-app/go.mod'', ''my-app/README.md'', ''my-app/.gitignore'']"
  by code_simp

lemma dotdot_exists: "path_exists empty_disk (Clean ''..'')"
  by code_simp

lemma missing_parent: "\<not> reachable empty_disk ''a/b'' \<and> \<not> invalid_path ''a/b''"
  by code_simp

lemma my_app_mkdir:
  "dirs disk = [] \<Longrightarrow> files disk = [] \<Longrightarrow> \<not> fault disk (Mkdir ''my-app'') \<Longrightarrow>
     os_Mkdir ''my-app'' disk = Inr (disk\<lparr>dirs := [''my-app'']\<rparr>)"
  using my_app_mkdir_ok
  by (simp add: os_Mkdir_Inr Clean_my_app path_exists_def is_dir_def reachable_def)

lemma my_app_all_written:
  "\<forall>(fileName, content) \<in> set (filesToCreate ''my-app'').
     \<not> write_refused (empty_disk\<lparr>dirs := [''my-app'']\<rparr>) (filepath_Join [''my-app'', fileName])"
  using my_app_paths my_app_writes_ok by (simp add: filesToCreate_def)

subsection \<open>init creates the project or fails\<close>

text \<open>
  Claim C8. For every project name, every iteration order of the map and every state of
  the file system:
  \<^item> if the path already exists (as a directory that is listed or that always exists, or as
    a file), \<open>runInit\<close> prints the error and exits with status 1, and the file system is
    as it was;
  \<^item> the same holds whenever \<^verbatim>\<open>os.Mkdir\<close> fails, whatever the reason;
  \<^item> if the directory can be made and \<^verbatim>\<open>os.WriteFile\<close> fails for one of the files,
    \<open>runInit\<close> exits with status 1 after it has called \<^verbatim>\<open>os.RemoveAll\<close> on the
    project directory, in the state where the directory and the files \<open>pre\<close> written so
    far exist; unless that call fails too, nothing at or below the directory is left;
  \<^item> if the directory can be made and no write fails, \<open>runInit\<close> returns, the
    directory exists and every file of \<open>filesToCreate\<close> is in it, with its trimmed
    content.
\<close>

theorem runInit_creates_or_fails:
  "(path_exists (fs p) (Clean name) \<longrightarrow>
      (\<exists>err. runInit order [name] p =
         (Exit 1, print (ErrorCreatingDirectory err) (print (Initializing name) p)))) \<and>
   (\<forall>err. os_Mkdir name (fs p) = Inl err \<longrightarrow>
      runInit order [name] p =
        (Exit 1, print (ErrorCreatingDirectory err) (print (Initializing name) p))) \<and>
   (\<forall>fs1. os_Mkdir name (fs p) = Inr fs1 \<longrightarrow>
      ((\<exists>(fileName, content) \<in> set (filesToCreate name). write_refused fs1 (filepath_Join [name, fileName])) \<longrightarrow>
         (\<exists>p' pre. runInit order [name] p = (Exit 1, p') \<and>
            set pre \<subseteq> set (filesToCreate name) \<and>
            fs p' = snd (os_RemoveAll name (fs1\<lparr>files := written name pre (files (fs p))\<rparr>)) \<and>
            (\<not> fault (fs p) (RemoveAll name) \<longrightarrow>
               fs p' = (fs p)\<lparr>dirs := filter (\<lambda>q. \<not> below (Clean name) q) (dirs (fs p)),
                               files := filter (\<lambda>(q, d). \<not> below (Clean name) q) (files (fs p))\<rparr>))) \<and>
      ((\<forall>(fileName, content) \<in> set (filesToCreate name). \<not> write_refused fs1 (filepath_Join [name, fileName])) \<longrightarrow>
         (\<exists>p'. runInit order [name] p = (Returned, p') \<and>
            dirs (fs p') = Clean name # dirs (fs p) \<and>
            map_of (files (fs p')) =
              map_of (files (fs p)) ++
              map_of (map (\<lambda>(fileName, content). (Clean name @ ''/'' @ fileName, TrimSpace content))
                        (filesToCreate name)))))"
  using runInit_directory_exists [of p name order] runInit_mkdir_fails [of name p _ order]
    runInit_write_refused [of name p _ order] runInit_succeeds [of name p _ order]
  by blast

text \<open>
  Witness for C8. The name \<^verbatim>\<open>my-app\<close> on a disk where the directory exists; the name
  \<^verbatim>\<open>..\<close>, a directory that always exists, and the name \<^verbatim>\<open>a/b\<close>, whose parent is
  missing, on the empty disk; \<^verbatim>\<open>my-app\<close> on an empty disk where writing \<^verbatim>\<open>go.mod\<close>
  fails (the disk is empty again afterwards); \<^verbatim>\<open>my-app\<close> on the empty disk without faults.
\<close>

theorem runInit_creates_or_fails_witness:
  "fst (runInit [] [''my-app''] (start (empty_disk\<lparr>dirs := [''my-app'']\<rparr>))) = Exit 1 \<and>
   fs (snd (runInit [] [''my-app''] (start (empty_disk\<lparr>dirs := [''my-app'']\<rparr>)))) = empty_disk\<lparr>dirs := [''my-app'']\<rparr> \<and>
   fst (runInit [] [''..''] (start empty_disk)) = Exit 1 \<and>
   fs (snd (runInit [] [''..''] (start empty_disk))) = empty_disk \<and>
   runInit [] [''a/b''] (start empty_disk) =
     (Exit 1, print (ErrorCreatingDirectory ErrNotExist) (print (Initializing ''a/b'') (start empty_disk))) \<and>
   fst (runInit [] [''my-app''] (start (empty_disk\<lparr>fault := (\<lambda>call. call = WriteFile ''my-app/go.mod'')\<rparr>))) = Exit 1 \<and>
   fs (snd (runInit [] [''my-app''] (start (empty_disk\<lparr>fault := (\<lambda>call. call = WriteFile ''my-app/go.mod'')\<rparr>))))
     = empty_disk\<lparr>fault := (\<lambda>call. call = WriteFile ''my-app/go.mod'')\<rparr> \<and>
   fst (runInit [] [''my-app''] (start empty_disk)) = Returned \<and>
   dirs (fs (snd (runInit [] [''my-app''] (start empty_disk)))) = [''my-app'']"
proof -
  let ?a = "start (empty_disk\<lparr>dirs := [''my-app'']\<rparr>)"
  let ?b = "start (empty_disk\<lparr>fault := (\<lambda>call. call = WriteFile ''my-app/go.mod'')\<rparr>)"
  let ?c = "start empty_disk"
  have a: "path_exists (fs ?a) (Clean ''my-app'')"
    by (simp add: Clean_my_app path_exists_def is_dir_def start_def empty_disk_def)
  from runInit_creates_or_fails [of ?a "''my-app''" "[]"] a
  have A: "fst (runInit [] [''my-app''] ?a) = Exit 1 \<and> fs (snd (runInit [] [''my-app''] ?a)) = empty_disk\<lparr>dirs := [''my-app'']\<rparr>"
    by (auto simp: fs_print start_def)
  have d: "path_exists (fs ?c) (Clean ''..'')"
    using dotdot_exists by (simp add: start_def)
  from runInit_creates_or_fails [of ?c "''..''" "[]"] d
  have D: "fst (runInit [] [''..''] ?c) = Exit 1 \<and> fs (snd (runInit [] [''..''] ?c)) = empty_disk"
    by (auto simp: fs_print start_def)
  have m: "os_Mkdir ''a/b'' (fs ?c) = Inl ErrNotExist"
    using missing_parent by (simp add: os_Mkdir_def start_def)
  from runInit_creates_or_fails [of ?c "''a/b''" "[]"] m
  have M: "runInit [] [''a/b''] ?c =
     (Exit 1, print (ErrorCreatingDirectory ErrNotExist) (print (Initializing ''a/b'') ?c))"
    by blast
  have mb: "os_Mkdir ''my-app'' (fs ?b) = Inr ((fs ?b)\<lparr>dirs := [''my-app'']\<rparr>)"
    by (rule my_app_mkdir) (simp_all add: start_def empty_disk_def)
  have "filepath_Join [''my-app'', ''go.mod''] = ''my-app/go.mod''"
    using my_app_paths by simp
  then have bad: "\<exists>(fileName, content) \<in> set (filesToCreate ''my-app'').
               write_refused ((fs ?b)\<lparr>dirs := [''my-app'']\<rparr>) (filepath_Join [''my-app'', fileName])"
    by (simp add: filesToCreate_def write_refused_def start_def empty_disk_def)
  have nf: "\<not> fault (fs ?b) (RemoveAll ''my-app'')" by (simp add: start_def empty_disk_def)
  from runInit_creates_or_fails [of ?b "''my-app''" "[]"] mb bad nf
  obtain p' where "runInit [] [''my-app''] ?b = (Exit 1, p')"
    "fs p' = (fs ?b)\<lparr>dirs := filter (\<lambda>q. \<not> below (Clean ''my-app'') q) (dirs (fs ?b)),
                      files := filter (\<lambda>(q, d). \<not> below (Clean ''my-app'') q) (files (fs ?b))\<rparr>"
    by blast
  then have B: "fst (runInit [] [''my-app''] ?b) = Exit 1 \<and>
      fs (snd (runInit [] [''my-app''] ?b)) = empty_disk\<lparr>fault := (\<lambda>call. call = WriteFile ''my-app/go.mod'')\<rparr>"
    by (simp add: start_def empty_disk_def)
  have mc: "os_Mkdir ''my-app'' (fs ?c) = Inr ((fs ?c)\<lparr>dirs := [''my-app'']\<rparr>)"
    by (rule my_app_mkdir) (simp_all add: start_def empty_disk_def)
  have good: "\<forall>(fileName, content) \<in> set (filesToCreate ''my-app'').
               \<not> write_refused ((fs ?c)\<lparr>dirs := [''my-app'']\<rparr>) (filepath_Join [''my-app'', fileName])"
    using my_app_all_written by (simp add: start_def)
  from runInit_creates_or_fails [of ?c "''my-app''" "[]"] mc good
  obtain p'' where "runInit [] [''my-app''] ?c = (Returned, p'')"
    "dirs (fs p'') = Clean ''my-app'' # dirs (fs ?c)"
    by blast
  then have C: "fst (runInit [] [''my-app''] ?c) = Returned \<and> dirs (fs (snd (runInit [] [''my-app''] ?c))) = [''my-app'']"
    by (simp add: Clean_my_app start_def empty_disk_def)
  from A D M B C show ?thesis by blast
qed

subsection \<open>The five files\<close>

text \<open>
  Claim C10. When \<open>runInit\<close> returns, the project directory is new, and the files of the
  file system are those it had before and five more, in the new directory:
  \<^verbatim>\<open>main.go\<close>, \<^verbatim>\<open>index.html\<close>, \<^verbatim>\<open>go.mod\<close>, \<^verbatim>\<open>README.md\<close> and
  \<^verbatim>\<open>.gitignore\<close>, each with its template trimmed by \<^verbatim>\<open>strings.TrimSpace\<close>. The five
  paths are distinct.
\<close>

theorem runInit_writes_five_files:
  assumes "runInit order [projectName] p = (Returned, p')"
  shows "\<not> path_exists (fs p) (Clean projectName) \<and>
         dirs (fs p') = Clean projectName # dirs (fs p) \<and>
         map_of (files (fs p')) =
           map_of (files (fs p)) ++
           map_of [(Clean projectName @ ''/main.go'', TrimSpace mainGoTemplate),
                   (Clean projectName @ ''/index.html'', TrimSpace indexHTMLTemplate),
                   (Clean projectName @ ''/go.mod'', TrimSpace (goModTemplate projectName)),
                   (Clean projectName @ ''/README.md'', TrimSpace (readmeTemplate projectName)),
                   (Clean projectName @ ''/.gitignore'', TrimSpace gitignoreTemplate)] \<and>
         distinct [Clean projectName @ ''/main.go'', Clean projectName @ ''/index.html'',
                   Clean projectName @ ''/go.mod'', Clean projectName @ ''/README.md'',
                   Clean projectName @ ''/.gitignore'']"
proof (cases "os_Mkdir projectName (fs p)")
  case (Inl err)
  with assms show ?thesis by (simp add: runInit_unfold)
next
  case (Inr fs1)
  then have new: "\<not> path_exists (fs p) (Clean projectName)" by (simp add: os_Mkdir_Inr)
  show ?thesis
  proof (cases "\<exists>(fileName, content) \<in> set (filesToCreate projectName).
                  write_refused fs1 (filepath_Join [projectName, fileName])")
    case True
    from runInit_write_refused [OF Inr True, of order] assms show ?thesis by auto
  next
    case False
    then have "\<forall>(fileName, content) \<in> set (filesToCreate projectName).
                 \<not> write_refused fs1 (filepath_Join [projectName, fileName])" by blast
    from runInit_succeeds [OF Inr this, of order] assms
    have "dirs (fs p') = Clean projectName # dirs (fs p)"
      and "map_of (files (fs p')) =
             map_of (files (fs p)) ++
             map_of (map (\<lambda>(fileName, content). (Clean projectName @ ''/'' @ fileName, TrimSpace content))
                       (filesToCreate projectName))"
      by auto
    with new show ?thesis by (simp add: filesToCreate_def)
  qed
qed

text \<open>
  Witness for C10: \<^verbatim>\<open>my-app\<close> on an empty disk. The run returns; \<^verbatim>\<open>go.mod\<close> and
  \<^verbatim>\<open>.gitignore\<close> hold their templates without the newlines around them, and there is no
  sixth file.
\<close>

theorem runInit_writes_five_files_witness:
  "\<exists>p'. runInit [] [''my-app''] (start empty_disk) = (Returned, p') \<and>
        dirs (fs p') = [''my-app''] \<and>
        map_of (files (fs p')) ''my-app/main.go'' = Some (TrimSpace mainGoTemplate) \<and>
        map_of (files (fs p')) ''my-app/go.mod'' = Some ''module my-app\<newline>\<newline>go 1.22'' \<and>
        map_of (files (fs p')) ''my-app/.gitignore'' =
          Some ''# Compiled Wasm file\<newline>app.wasm\<newline>\<newline># JS glue file\<newline>wasm_exec.js'' \<and>
        map_of (files (fs p')) ''my-app/LICENSE'' = None"
proof -
  let ?c = "start empty_disk"
  have mc: "os_Mkdir ''my-app'' (fs ?c) = Inr ((fs ?c)\<lparr>dirs := [''my-app'']\<rparr>)"
    by (rule my_app_mkdir) (simp_all add: start_def empty_disk_def)
  have good: "\<forall>(fileName, content) \<in> set (filesToCreate ''my-app'').
               \<not> write_refused ((fs ?c)\<lparr>dirs := [''my-app'']\<rparr>) (filepath_Join [''my-app'', fileName])"
    using my_app_all_written by (simp add: start_def)
  from runInit_succeeds [OF mc good, of "[]"] obtain p'
    where run: "runInit [] [''my-app''] ?c = (Returned, p')" by blast
  from runInit_writes_five_files [OF run]
  have "dirs (fs p') = [''my-app'']"
    and "map_of (files (fs p')) =
           map_of (files (fs ?c)) ++
           map_of [(''my-app/main.go'', TrimSpace mainGoTemplate),
                   (''my-app/index.html'', TrimSpace indexHTMLTemplate),
                   (''my-app/go.mod'', TrimSpace (goModTemplate ''my-app'')),
                   (''my-app/README.md'', TrimSpace (readmeTemplate ''my-app'')),
                   (''my-app/.gitignore'', TrimSpace gitignoreTemplate)]"
    by (simp_all add: Clean_my_app start_def empty_disk_def)
  with run show ?thesis
    by (intro exI [of _ p']) (simp add: gitignore_trimmed goMod_trimmed_example start_def empty_disk_def)
qed

end
